theory Spec2Isabelle
  imports Complex_Main "HOL-Library.Product_Lexorder" "HOL-Library.Multiset"
begin

section \<open>Conventions\<close>

text \<open>
  The scripts compute with Python floats and NumPy float64 arrays. Coordinates, distances
  and scores are modelled as \<^typ>\<open>real\<close>, so rounding of the machine arithmetic is outside
  the model; counts and identifiers are \<^typ>\<open>int\<close> or \<^typ>\<open>nat\<close>, and the one cast of floats to
  64-bit integers, in the voxel grid, is modelled with its range. Results of the
  external libraries (Qhull's convex hull, DBSCAN, the PDAL subprocess) enter as
  parameters. An exception that the source lets escape is a value \<open>Inl e\<close>.
\<close>

datatype py_error = KeyError | ValueError | IndexError

section \<open>Mast cleanup: \<^verbatim>\<open>python_mast_enhanced.py\<close>\<close>

text \<open>A mast object of the centroid JSON: the keys the script reads.\<close>

record mast =
  object_id :: int
  point_count :: int
  centroid_x :: real
  centroid_y :: real
  centroid_z :: real

text \<open>The table \<^verbatim>\<open>MAST_FILTERS\<close>.\<close>

definition min_points :: int where "min_points = 100"
definition max_points :: int where "max_points = 3000"
definition min_relative_height :: real where "min_relative_height = 5"
definition max_relative_height :: real where "max_relative_height = 50"
definition min_density :: real where "min_density = 10"
definition max_density :: real where "max_density = 200"
definition min_quality_score :: real where "min_quality_score = 6 / 10"

subsection \<open>\<^verbatim>\<open>remove_duplicate_masts\<close>\<close>

definition mast_distance :: "mast \<Rightarrow> mast \<Rightarrow> real" where
  "mast_distance current kept =
     sqrt ((centroid_x current - centroid_x kept)\<^sup>2 + (centroid_y current - centroid_y kept)\<^sup>2)"

text \<open>The inner loop over \<^verbatim>\<open>filtered_masts\<close>, which breaks at the first close mast.\<close>

fun is_duplicate :: "real \<Rightarrow> mast \<Rightarrow> mast list \<Rightarrow> bool" where
  "is_duplicate r current [] = False"
| "is_duplicate r current (kept # rest) =
     (if mast_distance current kept < r then True else is_duplicate r current rest)"

text \<open>The outer loop; the state is \<^verbatim>\<open>(filtered_masts, removed_count)\<close>.\<close>

fun dedup_loop :: "real \<Rightarrow> mast list \<Rightarrow> mast list \<times> nat \<Rightarrow> mast list \<times> nat" where
  "dedup_loop r [] st = st"
| "dedup_loop r (current # rest) (filtered, removed) =
     (if is_duplicate r current filtered
      then dedup_loop r rest (filtered, removed + 1)
      else dedup_loop r rest (filtered @ [current], removed))"

text \<open>
  \<^verbatim>\<open>sorted(masts, key=lambda m: m['point_count'], reverse=True)\<close>: Python's sort is stable
  also with \<^verbatim>\<open>reverse=True\<close>, which is the stable ascending sort on the negated key.
\<close>

definition sorted_masts :: "mast list \<Rightarrow> mast list" where
  "sorted_masts masts = sort_key (\<lambda>m. - point_count m) masts"

definition remove_duplicate_masts :: "mast list \<Rightarrow> real \<Rightarrow> mast list \<times> nat" where
  "remove_duplicate_masts masts proximity_radius =
     (if length masts \<le> 1 then (masts, 0)
      else dedup_loop proximity_radius (sorted_masts masts) ([], 0))"

subsection \<open>\<^verbatim>\<open>calculate_mast_quality\<close>\<close>

datatype factor_key = PointCount | Height | Density

definition relative_height :: "mast \<Rightarrow> real \<Rightarrow> real" where
  "relative_height mast_data ground_level = centroid_z mast_data - ground_level"

definition density :: "mast \<Rightarrow> real \<Rightarrow> real" where
  "density mast_data ground_level =
     real_of_int (point_count mast_data) / max (relative_height mast_data ground_level) 1"

fun quality_factors :: "mast \<Rightarrow> real \<Rightarrow> factor_key \<Rightarrow> real" where
  "quality_factors m g PointCount =
     (if min_points \<le> point_count m \<and> point_count m \<le> max_points then 1
      else if point_count m < min_points then 0
      else 0)"
| "quality_factors m g Height =
     (if min_relative_height \<le> relative_height m g \<and> relative_height m g \<le> max_relative_height
      then 1 else 1 / 2)"
| "quality_factors m g Density =
     (if min_density \<le> density m g \<and> density m g \<le> max_density then 1 else 7 / 10)"

definition weights :: "(factor_key \<times> real) list" where
  "weights = [(PointCount, 5 / 10), (Height, 3 / 10), (Density, 2 / 10)]"

text \<open>
  \<^verbatim>\<open>chunk_bounds\<close> is the dictionary \<^verbatim>\<open>data.get('utm_bounds', {})\<close>; reading
  \<^verbatim>\<open>chunk_bounds['min_z']\<close> raises \<^verbatim>\<open>KeyError\<close> when the key is absent. The returned
  \<^verbatim>\<open>validation_details\<close> only hold rounded copies for the report and are left out.
\<close>

definition calculate_mast_quality :: "mast \<Rightarrow> (string \<rightharpoonup> real) \<Rightarrow> py_error + real" where
  "calculate_mast_quality mast_data chunk_bounds =
     (case chunk_bounds ''min_z'' of
        None \<Rightarrow> Inl KeyError
      | Some ground_level \<Rightarrow>
          Inr (sum_list (map (\<lambda>(k, w). quality_factors mast_data ground_level k * w) weights)))"

subsection \<open>\<^verbatim>\<open>process_mast_chunk\<close>: the filter loop and the deduplication\<close>

record filtered_stats =
  too_small :: nat
  too_large :: nat
  poor_quality :: nat
  duplicates_removed :: nat
  clean_masts :: nat

definition initial_stats :: filtered_stats where
  "initial_stats =
     \<lparr>too_small = 0, too_large = 0, poor_quality = 0, duplicates_removed = 0, clean_masts = 0\<rparr>"

text \<open>
  The loop over \<^verbatim>\<open>original_masts\<close>. The quality is computed before the point-count
  filter, so a missing \<^verbatim>\<open>min_z\<close> aborts at the first mast.
\<close>

fun filter_loop ::
  "(string \<rightharpoonup> real) \<Rightarrow> mast list \<Rightarrow> mast list \<times> filtered_stats
     \<Rightarrow> py_error + (mast list \<times> filtered_stats)" where
  "filter_loop b [] st = Inr st"
| "filter_loop b (m # ms) (clean, stats) =
     (case calculate_mast_quality m b of
        Inl e \<Rightarrow> Inl e
      | Inr quality_score \<Rightarrow>
          if point_count m < min_points
          then filter_loop b ms (clean, stats\<lparr>too_small := too_small stats + 1\<rparr>)
          else if point_count m > max_points
          then filter_loop b ms (clean, stats\<lparr>too_large := too_large stats + 1\<rparr>)
          else if quality_score < min_quality_score
          then filter_loop b ms (clean, stats\<lparr>poor_quality := poor_quality stats + 1\<rparr>)
          else filter_loop b ms (clean @ [m], stats\<lparr>clean_masts := clean_masts stats + 1\<rparr>))"

text \<open>
  The result keeps \<^verbatim>\<open>data['centroids']\<close> and \<^verbatim>\<open>data['filtering']['statistics']\<close>; with no
  mast at all the script returns its input unchanged, without statistics.
\<close>

definition process_mast_chunk ::
  "mast list \<Rightarrow> (string \<rightharpoonup> real) \<Rightarrow> py_error + (mast list \<times> filtered_stats option)" where
  "process_mast_chunk original_masts chunk_bounds =
     (if original_masts = [] then Inr ([], None)
      else case filter_loop chunk_bounds original_masts ([], initial_stats) of
        Inl e \<Rightarrow> Inl e
      | Inr (clean, stats) \<Rightarrow>
          (case remove_duplicate_masts clean (3 / 2) of
             (deduped, duplicate_count) \<Rightarrow>
               Inr (deduped,
                    Some (stats\<lparr>duplicates_removed := duplicate_count,
                                 clean_masts := length deduped\<rparr>))))"

subsection \<open>Example masts\<close>

definition mast_big :: mast where
  "mast_big = \<lparr>object_id = 1, point_count = 300, centroid_x = 0, centroid_y = 0, centroid_z = 10\<rparr>"
definition mast_edge :: mast where
  "mast_edge = \<lparr>object_id = 2, point_count = 200, centroid_x = 0, centroid_y = 3 / 2, centroid_z = 10\<rparr>"
definition mast_near :: mast where
  "mast_near = \<lparr>object_id = 3, point_count = 100, centroid_x = 0, centroid_y = 1, centroid_z = 10\<rparr>"
definition mast_noise :: mast where
  "mast_noise = \<lparr>object_id = 4, point_count = 50, centroid_x = 40, centroid_y = 0, centroid_z = 10\<rparr>"
definition mast_worst :: mast where
  "mast_worst = \<lparr>object_id = 5, point_count = 100, centroid_x = 80, centroid_y = 0, centroid_z = 60\<rparr>"
definition ground_zero :: "string \<rightharpoonup> real" where
  "ground_zero = [''min_z'' \<mapsto> 0]"


section \<open>Building extraction: \<^verbatim>\<open>python_instance_enhanced_fixed1.py\<close>\<close>

type_synonym point2 = "real \<times> real"
type_synonym polygon = "point2 list"

subsection \<open>Geometry metrics\<close>

text \<open>
  The body of each metric function stands in a \<^verbatim>\<open>try\<close> whose \<^verbatim>\<open>except\<close> returns 0 (1 for the
  aspect ratio). On a list of coordinate pairs no statement of these bodies raises: the
  indices are in range, the square roots are of sums of squares and every division is
  guarded. So the functions are total here and have no error value.
\<close>

text \<open>Python indexing of a list, negative indices counting from the end (in range only).\<close>

definition py_index :: "'a list \<Rightarrow> int \<Rightarrow> 'a" where
  "py_index xs i = xs ! nat (if i < 0 then int (length xs) + i else i)"

text \<open>
  \<^verbatim>\<open>calculate_polygon_area\<close>: the shoelace sum over \<^verbatim>\<open>coords[:-1]\<close>,
  with \<^verbatim>\<open>i\<close> running over \<^verbatim>\<open>range(-1, len(x)-1)\<close>.
\<close>

definition calculate_polygon_area :: "polygon \<Rightarrow> real" where
  "calculate_polygon_area coords =
     (if length coords < 4 then 0
      else let x = map fst (butlast coords); y = map snd (butlast coords)
           in 1 / 2 * \<bar>sum_list (map (\<lambda>i. py_index x i * py_index y (i + 1)
                                           - py_index x (i + 1) * py_index y i)
                                    [- 1 .. int (length x) - 2])\<bar>)"

text \<open>The length of the edge from \<^verbatim>\<open>coords[i]\<close> to \<^verbatim>\<open>coords[i+1]\<close>.\<close>

definition edge_length :: "polygon \<Rightarrow> nat \<Rightarrow> real" where
  "edge_length coords i =
     (let dx = fst (coords ! (i + 1)) - fst (coords ! i);
          dy = snd (coords ! (i + 1)) - snd (coords ! i)
      in sqrt (dx * dx + dy * dy))"

text \<open>\<^verbatim>\<open>range(len(coords)-1)\<close> is empty for the empty list, as the truncated difference is.\<close>

definition calculate_polygon_perimeter :: "polygon \<Rightarrow> real" where
  "calculate_polygon_perimeter coords =
     sum_list (map (edge_length coords) [0 ..< length coords - 1])"

definition calculate_aspect_ratio :: "polygon \<Rightarrow> real" where
  "calculate_aspect_ratio coords =
     (if length coords < 4 then 1
      else let edge_lengths = sort (map (edge_length coords) [0 ..< length coords - 1])
           in if length edge_lengths \<ge> 4
              then let width = edge_lengths ! 0; height = edge_lengths ! 2
                   in if width > 0 then max (height / width) (width / height) else 1
              else 1)"

definition calculate_compactness :: "real \<Rightarrow> real \<Rightarrow> real" where
  "calculate_compactness area perimeter =
     (if perimeter > 0 then (4 * pi * area) / perimeter\<^sup>2 else 0)"

subsection \<open>\<^verbatim>\<open>has_overlap_with_existing\<close>\<close>

text \<open>Python's \<^verbatim>\<open>min\<close> and \<^verbatim>\<open>max\<close> of a non-empty list.\<close>

definition py_min :: "real list \<Rightarrow> real" where
  "py_min xs = fold min (tl xs) (hd xs)"

definition py_max :: "real list \<Rightarrow> real" where
  "py_max xs = fold max (tl xs) (hd xs)"

definition min_x :: "polygon \<Rightarrow> real" where "min_x coords = py_min (map fst coords)"
definition max_x :: "polygon \<Rightarrow> real" where "max_x coords = py_max (map fst coords)"
definition min_y :: "polygon \<Rightarrow> real" where "min_y coords = py_min (map snd coords)"
definition max_y :: "polygon \<Rightarrow> real" where "max_y coords = py_max (map snd coords)"

text \<open>The test after which the loop continues with the next polygon (\<^verbatim>\<open># No overlap\<close>).\<close>

definition bbox_disjoint :: "polygon \<Rightarrow> polygon \<Rightarrow> bool" where
  "bbox_disjoint new_coords existing_coords \<longleftrightarrow>
     max_x new_coords < min_x existing_coords \<or> min_x new_coords > max_x existing_coords \<or>
     max_y new_coords < min_y existing_coords \<or> min_y new_coords > max_y existing_coords"

definition center_x :: "polygon \<Rightarrow> real" where
  "center_x coords = (min_x coords + max_x coords) / 2"

definition center_y :: "polygon \<Rightarrow> real" where
  "center_y coords = (min_y coords + max_y coords) / 2"

definition center_distance :: "polygon \<Rightarrow> polygon \<Rightarrow> real" where
  "center_distance new_coords existing_coords =
     sqrt ((center_x new_coords - center_x existing_coords)\<^sup>2
           + (center_y new_coords - center_y existing_coords)\<^sup>2)"

text \<open>
  The loop over \<^verbatim>\<open>existing_polygons\<close>. \<^verbatim>\<open>min\<close> of an empty coordinate list raises
  \<^verbatim>\<open>ValueError\<close>, which the enclosing \<^verbatim>\<open>except\<close> turns into the answer \<^verbatim>\<open>False\<close>.
\<close>

fun has_overlap_with_existing :: "polygon \<Rightarrow> polygon list \<Rightarrow> real \<Rightarrow> bool" where
  "has_overlap_with_existing new_coords [] min_distance = False"
| "has_overlap_with_existing new_coords (existing_coords # rest) min_distance =
     (if new_coords = [] \<or> existing_coords = [] then False
      else if bbox_disjoint new_coords existing_coords
      then has_overlap_with_existing new_coords rest min_distance
      else if center_distance new_coords existing_coords < min_distance then True
      else has_overlap_with_existing new_coords rest min_distance)"

subsection \<open>The candidate loop of \<^verbatim>\<open>extract_instance_buildings_enhanced\<close>\<close>

text \<open>
  What the loop body obtains for one cluster before its filters run: the number of
  cluster points, \<^verbatim>\<open>calculate_point_density(cluster_points)\<close> and
  \<^verbatim>\<open>create_footprint_building(cluster_points)\<close> (\<open>None\<close> for Python's \<^verbatim>\<open>None\<close>). The last
  two go through Qhull and are defined further down, over a parameter for it.
\<close>

record candidate =
  n_points :: nat
  cluster_density :: real
  polygon_coords :: "polygon option"

text \<open>The properties of an emitted feature (before rounding for the report).\<close>

record building =
  polygon_id :: nat
  coordinates :: polygon
  area_m2 :: real
  perimeter_m :: real
  b_point_count :: nat
  point_density :: real
  aspect_ratio :: real
  compactness :: real

record rejected_stats =
  r_too_small :: nat
  r_too_large :: nat
  r_too_few_points :: nat
  r_aspect_ratio :: nat
  r_overlap :: nat
  r_invalid_polygon :: nat
  r_too_sparse :: nat

record loop_state =
  buildings :: "building list"
  building_polygons :: "polygon list"
  rejected :: rejected_stats

definition initial_loop_state :: loop_state where
  "initial_loop_state =
     \<lparr>buildings = [], building_polygons = [],
      rejected = \<lparr>r_too_small = 0, r_too_large = 0, r_too_few_points = 0, r_aspect_ratio = 0,
                  r_overlap = 0, r_invalid_polygon = 0, r_too_sparse = 0\<rparr>\<rparr>"

text \<open>
  \<^verbatim>\<open>utm_coords\<close>: a copy of the polygon, closed if it is not. Reading \<^verbatim>\<open>utm_coords[0]\<close> of
  an empty list raises \<^verbatim>\<open>IndexError\<close>, which would end the whole run.
\<close>

definition close_ring :: "polygon \<Rightarrow> py_error + polygon" where
  "close_ring coords =
     (case coords of
        [] \<Rightarrow> Inl IndexError
      | p # ps \<Rightarrow> Inr (if p \<noteq> last coords then coords @ [p] else coords))"

definition reject :: "(rejected_stats \<Rightarrow> rejected_stats) \<Rightarrow> loop_state \<Rightarrow> loop_state" where
  "reject bump st = st\<lparr>rejected := bump (rejected st)\<rparr>"

text \<open>One pass of the loop body, filters 1 to 5 in the order of the source.\<close>

definition candidate_step :: "loop_state \<Rightarrow> candidate \<Rightarrow> py_error + loop_state" where
  "candidate_step st c =
     (if n_points c < 80
      then Inr (reject (\<lambda>r. r\<lparr>r_too_few_points := r_too_few_points r + 1\<rparr>) st)
      else if cluster_density c < 3 / 10
      then Inr (reject (\<lambda>r. r\<lparr>r_too_sparse := r_too_sparse r + 1\<rparr>) st)
      else case polygon_coords c of
        None \<Rightarrow> Inr (reject (\<lambda>r. r\<lparr>r_invalid_polygon := r_invalid_polygon r + 1\<rparr>) st)
      | Some coords \<Rightarrow>
          let area = calculate_polygon_area coords;
              perimeter = calculate_polygon_perimeter coords;
              aspect = calculate_aspect_ratio coords
          in if area < 20
             then Inr (reject (\<lambda>r. r\<lparr>r_too_small := r_too_small r + 1\<rparr>) st)
             else if area > 5000
             then Inr (reject (\<lambda>r. r\<lparr>r_too_large := r_too_large r + 1\<rparr>) st)
             else if aspect > 12
             then Inr (reject (\<lambda>r. r\<lparr>r_aspect_ratio := r_aspect_ratio r + 1\<rparr>) st)
             else if has_overlap_with_existing coords (building_polygons st) 8
             then Inr (reject (\<lambda>r. r\<lparr>r_overlap := r_overlap r + 1\<rparr>) st)
             else case close_ring coords of
               Inl e \<Rightarrow> Inl e
             | Inr utm_coords \<Rightarrow>
                 Inr (st\<lparr>buildings := buildings st @
                            [\<lparr>polygon_id = length (buildings st) + 1,
                              coordinates = utm_coords,
                              area_m2 = area,
                              perimeter_m = perimeter,
                              b_point_count = n_points c,
                              point_density = cluster_density c,
                              aspect_ratio = aspect,
                              compactness = calculate_compactness area perimeter\<rparr>],
                         building_polygons := building_polygons st @ [coords]\<rparr>))"

fun candidate_loop :: "loop_state \<Rightarrow> candidate list \<Rightarrow> py_error + loop_state" where
  "candidate_loop st [] = Inr st"
| "candidate_loop st (c # cs) =
     (case candidate_step st c of
        Inl e \<Rightarrow> Inl e
      | Inr st' \<Rightarrow> candidate_loop st' cs)"

text \<open>
  The relation that the loop maintains between an accepted polygon and every later one:
  their boxes do not meet, or the centres of the boxes are at least 8 m apart.
\<close>

definition apart :: "polygon \<Rightarrow> polygon \<Rightarrow> bool" where
  "apart earlier later \<longleftrightarrow> bbox_disjoint later earlier \<or> 8 \<le> center_distance later earlier"

subsection \<open>Example polygons\<close>

text \<open>Two parallel strips of 2 m by 12 m, 5.5 m apart, as closed rings.\<close>

definition strip_west :: polygon where
  "strip_west = [(0, 0), (2, 0), (2, 12), (0, 12), (0, 0)]"

definition strip_east :: polygon where
  "strip_east = [(15 / 2, 0), (19 / 2, 0), (19 / 2, 12), (15 / 2, 12), (15 / 2, 0)]"

text \<open>A 10 m by 10 m square whose box meets that of the western strip.\<close>

definition square_over :: polygon where
  "square_over = [(1, 1), (11, 1), (11, 11), (1, 11), (1, 1)]"

text \<open>Candidates with these footprints: clusters of 150 and 400 points.\<close>

definition cand_west :: candidate where
  "cand_west = \<lparr>n_points = 150, cluster_density = 150 / 24, polygon_coords = Some strip_west\<rparr>"

definition cand_east :: candidate where
  "cand_east = \<lparr>n_points = 150, cluster_density = 150 / 24, polygon_coords = Some strip_east\<rparr>"

definition cand_over :: candidate where
  "cand_over = \<lparr>n_points = 400, cluster_density = 4, polygon_coords = Some square_over\<rparr>"

section \<open>The point stages: \<^verbatim>\<open>python_instance_enhanced.py\<close> and \<^verbatim>\<open>python_wire_enhanced.py\<close>\<close>

type_synonym point3 = "real \<times> real \<times> real"

definition z_of :: "point3 \<Rightarrow> real" where
  "z_of p = (case p of (x, y, z) \<Rightarrow> z)"

definition xy_of :: "point3 \<Rightarrow> point2" where
  "xy_of p = (case p of (x, y, z) \<Rightarrow> (x, y))"

text \<open>
  Indexing an array with a Boolean mask of the same length (\<^verbatim>\<open>points[mask]\<close>): the rows
  whose mask entry is true, in order.
\<close>

definition np_select :: "'a list \<Rightarrow> bool list \<Rightarrow> 'a list" where
  "np_select rows flags = map fst (filter snd (zip rows flags))"

subsection \<open>Step 1: voxel grid filtering\<close>

text \<open>
  \<^verbatim>\<open>.astype(int)\<close> casts a float that \<^verbatim>\<open>np.floor\<close> has made integral to a signed 64-bit
  integer. Within the range of that type the value is kept. Outside it the cast has no
  defined value; NumPy on x86-64 then yields the least integer of the type, for every such
  input, which is what is modelled.
\<close>

definition astype_int :: "real \<Rightarrow> int" where
  "astype_int r = (if - (2 ^ 63) \<le> r \<and> r < 2 ^ 63 then \<lfloor>r\<rfloor> else - (2 ^ 63))"

text \<open>One row of \<^verbatim>\<open>np.floor(points_3d / voxel_size).astype(int)\<close>.\<close>

definition voxel_index :: "real \<Rightarrow> point3 \<Rightarrow> int \<times> int \<times> int" where
  "voxel_index voxel_size p =
     (case p of
        (x, y, z) \<Rightarrow>
          (astype_int (of_int \<lfloor>x / voxel_size\<rfloor>),
           astype_int (of_int \<lfloor>y / voxel_size\<rfloor>),
           astype_int (of_int \<lfloor>z / voxel_size\<rfloor>)))"

text \<open>
  The grid of the specification, stated without the code's index computation: the voxel
  \<open>(i, j, k)\<close> of edge length \<open>v\<close> is the half-open cube from \<open>(i v, j v, k v)\<close> to
  \<open>((i + 1) v, (j + 1) v, (k + 1) v)\<close>, and a point occupies the voxel it lies in.
\<close>

definition grid_cell :: "real \<Rightarrow> int \<times> int \<times> int \<Rightarrow> point3 \<Rightarrow> bool" where
  "grid_cell v c p =
     (case c of
        (i, j, k) \<Rightarrow>
          (case p of
             (x, y, z) \<Rightarrow>
               of_int i * v \<le> x \<and> x < (of_int i + 1) * v \<and>
               of_int j * v \<le> y \<and> y < (of_int j + 1) * v \<and>
               of_int k * v \<le> z \<and> z < (of_int k + 1) * v))"

text \<open>The points whose scaled coordinates a signed 64-bit integer can hold.\<close>

definition in_int64_range :: "real \<Rightarrow> point3 \<Rightarrow> bool" where
  "in_int64_range v p =
     (case p of
        (x, y, z) \<Rightarrow>
          - (2 ^ 63) \<le> x / v \<and> x / v < 2 ^ 63 \<and>
          - (2 ^ 63) \<le> y / v \<and> y / v < 2 ^ 63 \<and>
          - (2 ^ 63) \<le> z / v \<and> z / v < 2 ^ 63)"

text \<open>The position of the first occurrence of a value that occurs in the list.\<close>

fun first_index :: "'a list \<Rightarrow> 'a \<Rightarrow> nat" where
  "first_index [] v = 0"
| "first_index (x # xs) v = (if x = v then 0 else Suc (first_index xs v))"

text \<open>
  \<^verbatim>\<open>np.unique(rows, axis=0, return_index=True)\<close>: the distinct rows in ascending
  (lexicographic) order, and for each of them the index of its first occurrence.
\<close>

definition np_unique_rows :: "'a::linorder list \<Rightarrow> 'a list \<times> nat list" where
  "np_unique_rows rows =
     (let unique = sort (remdups rows) in (unique, map (first_index rows) unique))"

definition voxel_filter :: "real \<Rightarrow> point3 list \<Rightarrow> point3 list" where
  "voxel_filter voxel_size points_3d =
     (let voxel_indices = map (voxel_index voxel_size) points_3d;
          (unique_voxels, unique_indices) = np_unique_rows voxel_indices
      in map (\<lambda>i. points_3d ! i) unique_indices)"

subsection \<open>Step 2: height-based ground filtering\<close>

text \<open>
  \<^verbatim>\<open>np.percentile(a, q)\<close> with NumPy's default linear interpolation, for a non-empty \<open>a\<close>
  and \<open>0 \<le> q \<le> 100\<close>: the value at the virtual index \<open>(n - 1) * q / 100\<close> of the
  sorted array, interpolated between its two neighbours.
\<close>

definition np_percentile :: "real list \<Rightarrow> real \<Rightarrow> real" where
  "np_percentile a q =
     (let s = sort a;
          n = length a;
          virtual_index = real (n - 1) * q / 100;
          previous = nat \<lfloor>virtual_index\<rfloor>;
          next = min (previous + 1) (n - 1);
          gamma = virtual_index - real previous
      in s ! previous + gamma * (s ! next - s ! previous))"

definition height_filter :: "real \<Rightarrow> point3 list \<Rightarrow> point3 list" where
  "height_filter q voxel_filtered =
     (let z_values = map z_of voxel_filtered;
          height_threshold = np_percentile z_values q;
          height_mask = map (\<lambda>z. z > height_threshold) z_values
      in np_select voxel_filtered height_mask)"

subsection \<open>Step 3: outlier removal\<close>

definition euclid2 :: "point2 \<Rightarrow> point2 \<Rightarrow> real" where
  "euclid2 p q = sqrt ((fst p - fst q)\<^sup>2 + (snd p - snd q)\<^sup>2)"

text \<open>
  One row of the distances of \<^verbatim>\<open>tree.query(points_2d, k=k)\<close> (at most as many neighbours
  as points): the \<open>k\<close> smallest distances from \<open>p\<close> to the points of the tree, ascending;
  the first is the distance 0 from \<open>p\<close> to itself.
\<close>

definition query_distances :: "point2 list \<Rightarrow> nat \<Rightarrow> point2 \<Rightarrow> real list" where
  "query_distances points_2d k p = take k (sort (map (euclid2 p) points_2d))"

definition np_mean :: "real list \<Rightarrow> real" where
  "np_mean xs = sum_list xs / real (length xs)"

definition np_std :: "real list \<Rightarrow> real" where
  "np_std xs = sqrt (np_mean (map (\<lambda>x. \<bar>x - np_mean xs\<bar>\<^sup>2) xs))"

text \<open>One entry of \<^verbatim>\<open>distances[:, 1:].mean(axis=1)\<close>.\<close>

definition mean_knn_distance :: "point2 list \<Rightarrow> nat \<Rightarrow> point2 \<Rightarrow> real" where
  "mean_knn_distance points_2d k_neighbors p =
     np_mean (drop 1 (query_distances points_2d (k_neighbors + 1) p))"

definition outlier_threshold :: "real \<Rightarrow> real list \<Rightarrow> real" where
  "outlier_threshold factor mean_distances =
     np_mean mean_distances + factor * np_std mean_distances"

definition inlier_mask :: "real \<Rightarrow> nat \<Rightarrow> point2 list \<Rightarrow> bool list" where
  "inlier_mask factor max_neighbors points_2d =
     (let k_neighbors = min max_neighbors (length points_2d - 1);
          mean_distances = map (mean_knn_distance points_2d k_neighbors) points_2d
      in map (\<lambda>d. d < outlier_threshold factor mean_distances) mean_distances)"

text \<open>
  Buildings: at least 20 points, else the run ends (\<open>None\<close>); up to 10 neighbours,
  factor 1.2 = 6/5; the mask selects from the projected points.
\<close>

definition outlier_removal_buildings :: "point2 list \<Rightarrow> point2 list option" where
  "outlier_removal_buildings points_2d =
     (if length points_2d < 20 then None
      else Some (np_select points_2d (inlier_mask (6 / 5) 10 points_2d)))"

text \<open>
  Wires: at least 10 points; up to 8 neighbours, factor 2.5 = 5/2; the mask computed on the
  projection selects from the 3D points.
\<close>

definition outlier_removal_wires :: "point3 list \<Rightarrow> point3 list option" where
  "outlier_removal_wires height_filtered =
     (let points_2d = map xy_of height_filtered
      in if length points_2d < 10 then None
         else Some (np_select height_filtered (inlier_mask (5 / 2) 8 points_2d)))"

subsection \<open>Example point clouds\<close>

text \<open>
  Five points for the voxel grid, five heights for the percentile, a column of twenty
  points with one projection, nineteen such points with one point 5 m away, and a
  vertical wire of ten points.
\<close>

definition cloud_heights :: "point3 list" where
  "cloud_heights = [(0, 0, 4), (1, 0, 1), (2, 0, 3), (3, 0, 2), (4, 0, 5)]"

definition cloud_column :: "point2 list" where
  "cloud_column = replicate 20 (0, 0)"

definition cloud_outlier :: "point2 list" where
  "cloud_outlier = replicate 19 (0, 0) @ [(3, 4)]"

definition cloud_example :: "point3 list" where
  "cloud_example =
     [(1 / 10, 1 / 10, 1 / 10), (1, 1, 1), (2 / 10, 2 / 10, 2 / 10), (- 1 / 10, 0, 0),
      (11 / 10, 12 / 10, 11 / 10)]"

definition wire_column :: "point3 list" where
  "wire_column = map (\<lambda>k. (0, 0, real k)) [0 ..< 10]"

text \<open>Two points far from the origin, in different voxels of edge 0.25.\<close>

definition cloud_far :: "point3 list" where
  "cloud_far =
     [(1000000000000000000000000000000, 0, 0), (2000000000000000000000000000000, 0, 0)]"

section \<open>The footprint builder: \<^verbatim>\<open>create_footprint_building\<close>\<close>

text \<open>
  \<^verbatim>\<open>scipy.spatial.ConvexHull\<close> is a parameter: for a point array it yields the indices
  \<^verbatim>\<open>hull.vertices\<close> and the area \<^verbatim>\<open>hull.volume\<close>, or raises \<^verbatim>\<open>QhullError\<close> (\<open>None\<close>), as Qhull
  does when the points do not span the plane.
\<close>

record hull_result =
  vertices :: "nat list"
  volume :: real

type_synonym qhull = "point2 list \<Rightarrow> hull_result option"

text \<open>\<^verbatim>\<open>points[hull.vertices]\<close>; an index out of range raises \<^verbatim>\<open>IndexError\<close> (\<open>None\<close>).\<close>

definition take_rows :: "'a list \<Rightarrow> nat list \<Rightarrow> 'a list option" where
  "take_rows rows idx =
     (if list_all (\<lambda>i. i < length rows) idx then Some (map (\<lambda>i. rows ! i) idx) else None)"

subsection \<open>\<^verbatim>\<open>create_concave_hull\<close>\<close>

text \<open>
  \<^verbatim>\<open>tree.query_ball_point(point, alpha)\<close> yields the points within distance \<open>alpha\<close>, the
  point itself among them; a point with at most \<open>max_neighbors\<close> of them is a boundary
  point.
\<close>

definition boundary_points :: "real \<Rightarrow> nat \<Rightarrow> point2 list \<Rightarrow> point2 list" where
  "boundary_points alpha max_neighbors points =
     filter (\<lambda>point. length (filter (\<lambda>q. euclid2 point q \<le> alpha) points) \<le> max_neighbors)
            points"

text \<open>Every exception inside is caught and gives \<^verbatim>\<open>None\<close>.\<close>

definition create_concave_hull :: "qhull \<Rightarrow> real \<Rightarrow> nat \<Rightarrow> point2 list \<Rightarrow> polygon option" where
  "create_concave_hull qh alpha max_neighbors points =
     (if length points < 4 then None
      else let boundary = boundary_points alpha max_neighbors points
           in if length boundary < 4 then None
              else case qh boundary of
                None \<Rightarrow> None
              | Some h \<Rightarrow>
                  (case take_rows boundary (vertices h) of
                     None \<Rightarrow> None
                   | Some hull_coords \<Rightarrow>
                       Some (if length hull_coords > 0 then hull_coords @ [hd hull_coords]
                             else hull_coords)))"

subsection \<open>\<^verbatim>\<open>simplify_polygon\<close>\<close>

definition point_to_line_distance :: "point2 \<Rightarrow> point2 \<Rightarrow> point2 \<Rightarrow> real" where
  "point_to_line_distance point line_start line_end =
     (case (point, line_start, line_end) of
        ((x0, y0), (x1, y1), (x2, y2)) \<Rightarrow>
          let num = \<bar>(y2 - y1) * x0 - (x2 - x1) * y0 + x2 * y1 - y2 * x1\<bar>;
              den = sqrt ((y2 - y1)\<^sup>2 + (x2 - x1)\<^sup>2)
          in if den = 0 then sqrt ((x0 - x1)\<^sup>2 + (y0 - y1)\<^sup>2) else num / den)"

text \<open>
  The search loop of \<^verbatim>\<open>dp_simplify\<close> over \<^verbatim>\<open>range(1, len(points) - 1)\<close>, with the state
  \<^verbatim>\<open>(max_dist, index)\<close> starting at \<open>(0, 0)\<close>.
\<close>

definition farthest_step :: "polygon \<Rightarrow> nat \<Rightarrow> real \<times> nat \<Rightarrow> real \<times> nat" where
  "farthest_step points i st =
     (case st of
        (max_dist, index) \<Rightarrow>
          let dist = point_to_line_distance (points ! i) (hd points) (last points)
          in if dist > max_dist then (dist, i) else (max_dist, index))"

definition farthest :: "polygon \<Rightarrow> real \<times> nat" where
  "farthest points = fold (farthest_step points) [1 ..< length points - 1] (0, 0)"

lemma farthest_step_index: "snd (farthest_step points i st) = snd st \<or> snd (farthest_step points i st) = i"
  by (cases st) (simp add: farthest_step_def Let_def)

lemma farthest_fold_index:
  "snd (fold (farthest_step points) js st) = snd st \<or> snd (fold (farthest_step points) js st) \<in> set js"
proof (induction js arbitrary: st)
  case Nil
  then show ?case by simp
next
  case (Cons j js)
  from Cons.IH [of "farthest_step points j st"] farthest_step_index [of points j st]
  show ?case by auto
qed

lemma farthest_index:
  "snd (farthest points) = 0 \<or> (1 \<le> snd (farthest points) \<and> snd (farthest points) < length points - 1)"
  using farthest_fold_index [of points "[1 ..< length points - 1]" "(0, 0)"]
  by (auto simp: farthest_def)

text \<open>
  \<^verbatim>\<open>dp_simplify\<close>. With a maximum above \<open>epsilon\<close> at index 0 (possible only for a negative
  \<open>epsilon\<close>) the right half is the whole list again and Python ends in \<^verbatim>\<open>RecursionError\<close>:
  \<open>None\<close>.
\<close>

function dp_simplify :: "polygon \<Rightarrow> real \<Rightarrow> polygon option" where
  "dp_simplify points epsilon =
     (if length points \<le> 2 then Some points
      else if fst (farthest points) > epsilon
      then if snd (farthest points) = 0 then None
           else case dp_simplify (take (snd (farthest points) + 1) points) epsilon of
                  None \<Rightarrow> None
                | Some left \<Rightarrow>
                    (case dp_simplify (drop (snd (farthest points)) points) epsilon of
                       None \<Rightarrow> None
                     | Some right \<Rightarrow> Some (butlast left @ right))
      else Some [hd points, last points])"
  by pat_completeness auto
termination
proof (relation "measure (\<lambda>(points, epsilon). length points)")
  show "wf (measure (\<lambda>(points, epsilon). length points))" by simp
next
  fix points :: polygon and epsilon :: real
  assume "\<not> length points \<le> 2" "snd (farthest points) \<noteq> 0"
  with farthest_index [of points]
  show "((take (snd (farthest points) + 1) points, epsilon), points, epsilon)
      \<in> measure (\<lambda>(points, epsilon). length points)"
    by simp
next
  fix points :: polygon and epsilon :: real and left :: polygon
  assume "\<not> length points \<le> 2" "snd (farthest points) \<noteq> 0"
  with farthest_index [of points]
  show "((drop (snd (farthest points)) points, epsilon), points, epsilon)
      \<in> measure (\<lambda>(points, epsilon). length points)"
    by simp
qed

declare dp_simplify.simps [simp del]

text \<open>An exception in \<^verbatim>\<open>dp_simplify\<close> makes \<^verbatim>\<open>simplify_polygon\<close> return its input.\<close>

definition simplify_polygon :: "polygon \<Rightarrow> real \<Rightarrow> polygon" where
  "simplify_polygon coords tolerance =
     (if length coords < 4 then coords
      else case dp_simplify coords tolerance of
        None \<Rightarrow> coords
      | Some simplified \<Rightarrow>
          if length simplified > 0 \<and> hd simplified \<noteq> last simplified
          then simplified @ [hd simplified]
          else simplified)"

subsection \<open>The methods of \<^verbatim>\<open>create_footprint_building\<close>\<close>

text \<open>Method 1: the concave hull, simplified; \<open>None\<close> when the method falls through.\<close>

definition method_concave :: "qhull \<Rightarrow> real \<Rightarrow> nat \<Rightarrow> point2 list \<Rightarrow> polygon option" where
  "method_concave qh alpha max_neighbors points_2d =
     (case create_concave_hull qh alpha max_neighbors points_2d of
        None \<Rightarrow> None
      | Some hull_coords \<Rightarrow>
          if length hull_coords \<ge> 4
          then let simplified = simplify_polygon hull_coords (1 / 2)
               in if length simplified \<ge> 4 then Some simplified else None
          else None)"

text \<open>Method 2: the convex hull of all points; \<open>None\<close> when Qhull raises.\<close>

definition method_convex :: "qhull \<Rightarrow> point2 list \<Rightarrow> polygon option" where
  "method_convex qh points_2d =
     (case qh points_2d of
        None \<Rightarrow> None
      | Some h \<Rightarrow>
          (case take_rows points_2d (vertices h) of
             None \<Rightarrow> None
           | Some hull_coords \<Rightarrow>
               Some (if length hull_coords > 0 \<and> hd hull_coords \<noteq> last hull_coords
                     then hull_coords @ [hd hull_coords]
                     else hull_coords)))"

text \<open>
  \<^verbatim>\<open>create_oriented_bbox_with_cuts\<close>: the convex hull again, inside its own
  \<^verbatim>\<open>try\<close>; its \<^verbatim>\<open>except\<close> returns \<^verbatim>\<open>None\<close>, so the function never raises.
\<close>

definition create_oriented_bbox_with_cuts :: "qhull \<Rightarrow> point2 list \<Rightarrow> polygon option" where
  "create_oriented_bbox_with_cuts qh points_2d =
     (case qh points_2d of
        None \<Rightarrow> None
      | Some h \<Rightarrow>
          (case take_rows points_2d (vertices h) of
             None \<Rightarrow> None
           | Some hull_coords \<Rightarrow>
               Some (if length hull_coords > 0 then hull_coords @ [hd hull_coords]
                     else hull_coords)))"

text \<open>
  Method 4 of the source, the axis-aligned bounding box of the points
  (\<^verbatim>\<open>np.min\<close> and \<^verbatim>\<open>np.max\<close> over \<^verbatim>\<open>axis=0\<close>).
\<close>

definition axis_aligned_box :: "point2 list \<Rightarrow> polygon" where
  "axis_aligned_box points_2d =
     (let x_min = py_min (map fst points_2d); y_min = py_min (map snd points_2d);
          x_max = py_max (map fst points_2d); y_max = py_max (map snd points_2d)
      in [(x_min, y_min), (x_max, y_min), (x_max, y_max), (x_min, y_max), (x_min, y_min)])"

text \<open>
  A method in a \<^verbatim>\<open>try\<close> block either returns (\<open>Returned r\<close>, where \<open>r\<close> may be Python's
  \<^verbatim>\<open>None\<close>) or passes control to the statements after the block.
\<close>

datatype 'a attempt = Returned 'a | Fell_through

text \<open>
  Method 3 is \<^verbatim>\<open>bbox = create_oriented_bbox_with_cuts(points_2d); return bbox\<close>: the
  call does not raise, and whatever it yields is returned.
\<close>

definition method_bbox_with_cuts :: "qhull \<Rightarrow> point2 list \<Rightarrow> polygon option attempt" where
  "method_bbox_with_cuts qh points_2d = Returned (create_oriented_bbox_with_cuts qh points_2d)"

text \<open>
  \<^verbatim>\<open>create_footprint_building\<close>, with the search radius and the neighbour bound of the
  two scripts as parameters: 3.0 and 8 in \<^verbatim>\<open>python_instance_enhanced.py\<close>, 4.0 and 10 in
  \<^verbatim>\<open>python_instance_enhanced_fixed1.py\<close>.
\<close>

definition create_footprint_building ::
  "qhull \<Rightarrow> real \<Rightarrow> nat \<Rightarrow> point2 list \<Rightarrow> polygon option" where
  "create_footprint_building qh alpha max_neighbors points_2d =
     (if length points_2d < 4 then None
      else case method_concave qh alpha max_neighbors points_2d of
        Some simplified \<Rightarrow> Some simplified
      | None \<Rightarrow>
          (case method_convex qh points_2d of
             Some hull_coords \<Rightarrow> Some hull_coords
           | None \<Rightarrow>
               (case method_bbox_with_cuts qh points_2d of
                  Returned bbox \<Rightarrow> bbox
                | Fell_through \<Rightarrow> Some (axis_aligned_box points_2d))))"

subsection \<open>From clusters to candidates\<close>

definition calculate_point_density :: "qhull \<Rightarrow> point2 list \<Rightarrow> real" where
  "calculate_point_density qh points_2d =
     (if length points_2d < 4 then 0
      else case qh points_2d of
        None \<Rightarrow> 0
      | Some h \<Rightarrow> if volume h > 0 then real (length points_2d) / volume h else 0)"

text \<open>
  What the loop of \<^verbatim>\<open>python_instance_enhanced_fixed1.py\<close> computes for a cluster, and the
  loop over the clusters in ascending order of label.
\<close>

definition candidate_of :: "qhull \<Rightarrow> point2 list \<Rightarrow> candidate" where
  "candidate_of qh cluster_points =
     \<lparr>n_points = length cluster_points,
      cluster_density = calculate_point_density qh cluster_points,
      polygon_coords = create_footprint_building qh 4 10 cluster_points\<rparr>"

definition building_loop :: "qhull \<Rightarrow> point2 list list \<Rightarrow> py_error + loop_state" where
  "building_loop qh clusters = candidate_loop initial_loop_state (map (candidate_of qh) clusters)"

section \<open>The point-loading stage and its temporary files\<close>

text \<open>
  The run of \<^verbatim>\<open>extract_instance_buildings_enhanced\<close> in \<^verbatim>\<open>python_instance_enhanced.py\<close>, as
  far as files are concerned. The state is the set of paths that exist. What the
  surroundings do is a value of \<open>run_env\<close>: whether the pipeline description can be
  written, how the PDAL subprocess ends and whether it leaves the points file, what
  \<^verbatim>\<open>np.loadtxt\<close> reads from it, and at which point the later steps end.
\<close>

datatype pdal_result = TimeoutExpired | Exited int

datatype stage_result =
    Too_few_after_filtering
  | Too_few_after_cleaning
  | No_clusters
  | No_buildings
  | Stage_exception
  | Buildings nat

record run_env =
  can_write_pipeline :: bool
  pdal :: pdal_result
  pdal_writes_points :: bool
  loadtxt :: "nat option"
  stages :: stage_result
  can_write_output :: bool

definition temp_points :: "string \<Rightarrow> string" where
  "temp_points chunk_name = ''/tmp/building_test/'' @ chunk_name @ ''_all_points.txt''"

definition pipeline_file :: "string \<Rightarrow> string" where
  "pipeline_file chunk_name = ''/tmp/building_test/'' @ chunk_name @ ''_extract_pipeline.json''"

definition output_file :: "string \<Rightarrow> string" where
  "output_file chunk_name =
     ''/home/prodair/Desktop/clustering/datasetclasified/new_data/new_data/'' @ chunk_name
       @ ''/compressed/filtred_by_classes/6_Buildings/polygons/6_Buildings_polygons.geojson''"

text \<open>
  The result is the returned count and the files afterwards. Every \<^verbatim>\<open>return 0\<close> and the
  outer \<^verbatim>\<open>except\<close> leave the files as they are; the two \<^verbatim>\<open>os.remove\<close> calls stand after
  the output has been saved.
\<close>

definition extract_run :: "string \<Rightarrow> run_env \<Rightarrow> string set \<Rightarrow> nat \<times> string set" where
  "extract_run chunk_name env files =
     (if \<not> can_write_pipeline env then (0, files)
      else let written = insert (pipeline_file chunk_name) files;
               after_pdal = (if pdal_writes_points env
                             then insert (temp_points chunk_name) written else written)
           in case pdal env of
                TimeoutExpired \<Rightarrow> (0, after_pdal)
              | Exited returncode \<Rightarrow>
                  if returncode \<noteq> 0 then (0, after_pdal)
                  else if temp_points chunk_name \<notin> after_pdal then (0, after_pdal)
                  else case loadtxt env of
                    None \<Rightarrow> (0, after_pdal)
                  | Some n \<Rightarrow>
                      if n < 100 then (0, after_pdal)
                      else case stages env of
                        Buildings k \<Rightarrow>
                          if k = 0 then (0, after_pdal)
                          else if \<not> can_write_output env then (0, after_pdal)
                          else (k, insert (output_file chunk_name) after_pdal
                                     - {temp_points chunk_name}
                                     - {pipeline_file chunk_name})
                      | _ \<Rightarrow> (0, after_pdal))"

subsection \<open>Example runs\<close>

text \<open>PDAL succeeds and writes 50 points, fewer than the 100 the script asks for.\<close>

definition env_too_few_points :: run_env where
  "env_too_few_points =
     \<lparr>can_write_pipeline = True, pdal = Exited 0, pdal_writes_points = True,
      loadtxt = Some 50, stages = No_clusters, can_write_output = True\<rparr>"

subsection \<open>Example clusters\<close>

text \<open>Four points on a line, and a Qhull that raises, as it does on them.\<close>

definition cluster_line :: "point2 list" where
  "cluster_line = [(0, 0), (1, 0), (2, 0), (3, 0)]"

definition qhull_error :: qhull where
  "qhull_error = (\<lambda>points. None)"

section \<open>Properties of the mast cleanup\<close>

lemma is_duplicate_iff:
  "is_duplicate r m ks \<longleftrightarrow> (\<exists>k \<in> set ks. mast_distance m k < r)"
  by (induction ks) auto

lemma dedup_loop_far:
  "sorted_wrt (\<lambda>a b. r \<le> mast_distance b a) kept \<Longrightarrow>
   sorted_wrt (\<lambda>a b. r \<le> mast_distance b a) (fst (dedup_loop r ms (kept, n)))"
proof (induction ms arbitrary: kept n)
  case Nil
  then show ?case by simp
next
  case (Cons m ms)
  show ?case
  proof (cases "is_duplicate r m kept")
    case True
    then show ?thesis using Cons by simp
  next
    case False
    then have "\<forall>k \<in> set kept. r \<le> mast_distance m k"
      by (auto simp: is_duplicate_iff not_less)
    with Cons.prems have "sorted_wrt (\<lambda>a b. r \<le> mast_distance b a) (kept @ [m])"
      by (simp add: sorted_wrt_append)
    from Cons.IH [OF this] False show ?thesis by simp
  qed
qed

lemma dedup_loop_mset:
  "mset (fst (dedup_loop r ms (kept, n))) \<subseteq># mset kept + mset ms"
proof (induction ms arbitrary: kept n)
  case Nil
  then show ?case by simp
next
  case (Cons m ms)
  show ?case
  proof (cases "is_duplicate r m kept")
    case True
    have "mset (fst (dedup_loop r ms (kept, n + 1))) \<subseteq># mset kept + mset ms"
      by (rule Cons.IH)
    also have "\<dots> \<subseteq># mset kept + mset (m # ms)" by simp
    finally show ?thesis using True by simp
  next
    case False
    have "mset (fst (dedup_loop r ms (kept @ [m], n))) \<subseteq># mset (kept @ [m]) + mset ms"
      by (rule Cons.IH)
    then show ?thesis using False by simp
  qed
qed

lemma dedup_loop_count:
  "length (fst (dedup_loop r ms (kept, n))) + snd (dedup_loop r ms (kept, n))
     = length kept + n + length ms"
  by (induction ms arbitrary: kept n) auto

lemma dedup_loop_sorted:
  "sorted (map (\<lambda>m. - point_count m) (kept @ ms)) \<Longrightarrow>
   sorted (map (\<lambda>m. - point_count m) (fst (dedup_loop r ms (kept, n))))"
proof (induction ms arbitrary: kept n)
  case Nil
  then show ?case by simp
next
  case (Cons m ms)
  show ?case
  proof (cases "is_duplicate r m kept")
    case True
    from Cons.prems have "sorted (map (\<lambda>m. - point_count m) (kept @ ms))"
      by (auto simp: sorted_append)
    from Cons.IH [OF this] True show ?thesis by simp
  next
    case False
    from Cons.prems have "sorted (map (\<lambda>m. - point_count m) ((kept @ [m]) @ ms))"
      by simp
    from Cons.IH [OF this] False show ?thesis by simp
  qed
qed

text \<open>Every processed mast is kept or lies closer than r to a kept mast that came earlier.\<close>

lemma dedup_loop_kept_prefix:
  "set kept \<subseteq> set (fst (dedup_loop r ms (kept, n)))"
proof (induction ms arbitrary: kept n)
  case Nil
  then show ?case by simp
next
  case (Cons m ms)
  show ?case
  proof (cases "is_duplicate r m kept")
    case True
    then show ?thesis using Cons.IH [of kept "n + 1"] by simp
  next
    case False
    then show ?thesis using Cons.IH [of "kept @ [m]" n] by auto
  qed
qed

lemma dedup_loop_covered:
  assumes "sorted (map (\<lambda>m. - point_count m) (kept @ ms))" and "x \<in> set ms"
  shows "x \<in> set (fst (dedup_loop r ms (kept, n))) \<or>
         (\<exists>k \<in> set (fst (dedup_loop r ms (kept, n))).
            mast_distance x k < r \<and> point_count x \<le> point_count k)"
  using assms
proof (induction ms arbitrary: kept n)
  case Nil
  then show ?case by simp
next
  case (Cons m ms)
  show ?case
  proof (cases "is_duplicate r m kept")
    case True
    from Cons.prems(1) have s: "sorted (map (\<lambda>m. - point_count m) (kept @ ms))"
      by (auto simp: sorted_append)
    show ?thesis
    proof (cases "x \<in> set ms")
      case True
      from Cons.IH [OF s this] \<open>is_duplicate r m kept\<close> show ?thesis by simp
    next
      case False
      with Cons.prems(2) have xm: "x = m" by simp
      from \<open>is_duplicate r m kept\<close> obtain k where k: "k \<in> set kept" "mast_distance m k < r"
        by (auto simp: is_duplicate_iff)
      from Cons.prems(1) k(1) have "point_count m \<le> point_count k"
        by (auto simp: sorted_append)
      moreover have "k \<in> set (fst (dedup_loop r ms (kept, n + 1)))"
        using dedup_loop_kept_prefix k(1) by blast
      ultimately show ?thesis using \<open>is_duplicate r m kept\<close> k(2) xm by auto
    qed
  next
    case False
    from Cons.prems(1) have s: "sorted (map (\<lambda>m. - point_count m) ((kept @ [m]) @ ms))"
      by simp
    show ?thesis
    proof (cases "x \<in> set ms")
      case True
      from Cons.IH [OF s this] \<open>\<not> is_duplicate r m kept\<close> show ?thesis by simp
    next
      case xf: False
      with Cons.prems(2) have xm: "x = m" by simp
      have "m \<in> set (fst (dedup_loop r ms (kept @ [m], n)))"
        using dedup_loop_kept_prefix [of "kept @ [m]" r ms n] by auto
      then show ?thesis using False xm by simp
    qed
  qed
qed

lemma mast_distance_commute: "mast_distance a b = mast_distance b a"
  by (simp add: mast_distance_def power2_commute)

lemma mast_distance_less_iff:
  "0 \<le> r \<Longrightarrow> mast_distance a b < r \<longleftrightarrow>
     (centroid_x a - centroid_x b)\<^sup>2 + (centroid_y a - centroid_y b)\<^sup>2 < r\<^sup>2"
proof -
  assume r: "0 \<le> r"
  have "sqrt (r\<^sup>2) = r" using r by simp
  then show ?thesis
    unfolding mast_distance_def by (metis real_sqrt_less_iff)
qed

lemma calculate_mast_quality_sum:
  "b ''min_z'' = Some g \<Longrightarrow>
   calculate_mast_quality m b =
     Inr (5 / 10 * quality_factors m g PointCount + 3 / 10 * quality_factors m g Height
          + 2 / 10 * quality_factors m g Density)"
  by (simp add: calculate_mast_quality_def weights_def)

lemma quality_factors_range: "0 \<le> quality_factors m g k \<and> quality_factors m g k \<le> 1"
  by (cases k) simp_all

lemma quality_in_bounds:
  assumes "min_points \<le> point_count m" "point_count m \<le> max_points"
    and "calculate_mast_quality m b = Inr q"
  shows "79 / 100 \<le> q"
proof -
  from assms(3) obtain g where g: "b ''min_z'' = Some g"
    by (auto simp: calculate_mast_quality_def split: option.splits)
  have h: "1 / 2 \<le> quality_factors m g Height" by simp
  have d: "7 / 10 \<le> quality_factors m g Density" by simp
  have p: "quality_factors m g PointCount = 1" using assms(1,2) by simp
  from assms(3) have "q = 5 / 10 * quality_factors m g PointCount
      + 3 / 10 * quality_factors m g Height + 2 / 10 * quality_factors m g Density"
    using calculate_mast_quality_sum [of b g m, OF g] by simp
  with h d p show ?thesis by simp
qed

lemma filter_loop_inv:
  "filter_loop b ms (clean, stats) = Inr (clean', stats') \<Longrightarrow>
   poor_quality stats' = poor_quality stats \<and>
   set clean' \<subseteq> set clean \<union>
     {m \<in> set ms. min_points \<le> point_count m \<and> point_count m \<le> max_points \<and>
        (\<exists>q. calculate_mast_quality m b = Inr q \<and> min_quality_score \<le> q)} \<and>
   (ms \<noteq> [] \<longrightarrow> b ''min_z'' \<noteq> None)"
proof (induction ms arbitrary: clean stats)
  case Nil
  then show ?case by simp
next
  case (Cons m ms)
  from Cons.prems obtain q where q: "calculate_mast_quality m b = Inr q"
    by (cases "calculate_mast_quality m b") auto
  then have z: "b ''min_z'' \<noteq> None"
    by (auto simp: calculate_mast_quality_def split: option.splits)
  consider (small) "point_count m < min_points"
    | (large) "\<not> point_count m < min_points" "point_count m > max_points"
    | (poor) "\<not> point_count m < min_points" "\<not> point_count m > max_points" "q < min_quality_score"
    | (keep) "\<not> point_count m < min_points" "\<not> point_count m > max_points" "\<not> q < min_quality_score"
    by blast
  then show ?case
  proof cases
    case small
    with Cons.prems q
    have "filter_loop b ms (clean, stats\<lparr>too_small := too_small stats + 1\<rparr>) = Inr (clean', stats')"
      by simp
    from Cons.IH [OF this] z show ?thesis by auto
  next
    case large
    with Cons.prems q
    have "filter_loop b ms (clean, stats\<lparr>too_large := too_large stats + 1\<rparr>) = Inr (clean', stats')"
      by simp
    from Cons.IH [OF this] z show ?thesis by auto
  next
    case poor
    with quality_in_bounds [OF _ _ q] have False
      by (simp add: min_quality_score_def)
    then show ?thesis ..
  next
    case keep
    with Cons.prems q
    have "filter_loop b ms (clean @ [m], stats\<lparr>clean_masts := clean_masts stats + 1\<rparr>)
            = Inr (clean', stats')"
      by simp
    from Cons.IH [OF this] z keep q show ?thesis by auto
  qed
qed

lemma remove_duplicate_masts_set:
  "set (fst (remove_duplicate_masts ms r)) \<subseteq> set ms"
proof (cases "length ms \<le> 1")
  case True
  then show ?thesis by (simp add: remove_duplicate_masts_def)
next
  case False
  have "mset (fst (dedup_loop r (sorted_masts ms) ([], 0))) \<subseteq># mset [] + mset (sorted_masts ms)"
    by (rule dedup_loop_mset)
  then have "set (fst (dedup_loop r (sorted_masts ms) ([], 0))) \<subseteq> set (sorted_masts ms)"
    by (metis add.left_neutral mset.simps(1) set_mset_mono set_mset_mset)
  then show ?thesis using False by (simp add: remove_duplicate_masts_def sorted_masts_def)
qed

lemmas example_masts = mast_big_def mast_edge_def mast_near_def mast_noise_def mast_worst_def

lemmas mast_distance_less_default = mast_distance_less_iff [of "3 / 2", simplified]

lemma example_point_counts:
  "point_count mast_big = 300" "point_count mast_edge = 200" "point_count mast_near = 100"
  "point_count mast_noise = 50" "point_count mast_worst = 100"
  by (simp_all add: example_masts)

lemma example_distances:
  "\<not> mast_distance mast_edge mast_big < 3 / 2"
  "mast_distance mast_near mast_big < 3 / 2"
  by (simp_all add: mast_distance_less_default example_masts power2_eq_square)

lemma dedup_example:
  "remove_duplicate_masts [mast_near, mast_edge, mast_big] (3 / 2) = ([mast_big, mast_edge], 1)"
  using example_distances
  by (simp add: remove_duplicate_masts_def sorted_masts_def example_point_counts)


subsection \<open>Claim C7: greedy deduplication of masts\<close>

text \<open>
  Claim C7, as amended. \<^verbatim>\<open>remove_duplicate_masts\<close> visits the candidates in descending
  order of point count and marks a candidate as duplicate exactly when its centroid is
  closer than the radius (\<^verbatim>\<open>distance < proximity_radius\<close>) to an already kept one. So for
  every input list and radius: the kept masts are taken from the input, none twice more
  than it occurs; kept and removed together are the input; the kept list is in descending
  order of point count; every two kept masts are at distance at least the radius (not
  necessarily more); and every input mast is kept or lies closer than the radius to a kept
  mast with at least as many points.
\<close>

theorem remove_duplicate_masts_greedy:
  assumes "remove_duplicate_masts masts r = (kept, removed)"
  shows "mset kept \<subseteq># mset masts \<and>
         length kept + removed = length masts \<and>
         sorted (map (\<lambda>m. - point_count m) kept) \<and>
         (\<forall>i j. i < j \<and> j < length kept \<longrightarrow> r \<le> mast_distance (kept ! i) (kept ! j)) \<and>
         (\<forall>x \<in> set masts. x \<in> set kept \<or>
            (\<exists>k \<in> set kept. mast_distance x k < r \<and> point_count x \<le> point_count k))"
proof (cases "length masts \<le> 1")
  case True
  with assms have k: "kept = masts" "removed = 0"
    by (simp_all add: remove_duplicate_masts_def)
  from True have "masts = [] \<or> (\<exists>m. masts = [m])"
    by (cases masts) auto
  with k show ?thesis by auto
next
  case False
  let ?s = "sorted_masts masts"
  from False assms have d: "dedup_loop r ?s ([], 0) = (kept, removed)"
    by (simp add: remove_duplicate_masts_def)
  have s: "sorted (map (\<lambda>m. - point_count m) ([] @ ?s))"
    by (simp add: sorted_masts_def)
  have "mset (fst (dedup_loop r ?s ([], 0))) \<subseteq># mset [] + mset ?s"
    by (rule dedup_loop_mset)
  then have 1: "mset kept \<subseteq># mset masts"
    using d by (simp add: sorted_masts_def)
  have 2: "length kept + removed = length masts"
    using dedup_loop_count [of r ?s "[]" 0] d by (simp add: sorted_masts_def)
  have 3: "sorted (map (\<lambda>m. - point_count m) kept)"
    using dedup_loop_sorted [OF s, of r 0] d by simp
  have "sorted_wrt (\<lambda>a b. r \<le> mast_distance b a) (fst (dedup_loop r ?s ([], 0)))"
    by (rule dedup_loop_far) simp
  then have 4: "\<forall>i j. i < j \<and> j < length kept \<longrightarrow> r \<le> mast_distance (kept ! i) (kept ! j)"
    using d by (auto simp: sorted_wrt_iff_nth_less mast_distance_commute)
  have 5: "\<forall>x \<in> set masts. x \<in> set kept \<or>
            (\<exists>k \<in> set kept. mast_distance x k < r \<and> point_count x \<le> point_count k)"
  proof
    fix x assume "x \<in> set masts"
    then have "x \<in> set ?s" by (simp add: sorted_masts_def)
    from dedup_loop_covered [OF s this, of r 0] d
    show "x \<in> set kept \<or>
            (\<exists>k \<in> set kept. mast_distance x k < r \<and> point_count x \<le> point_count k)"
      by simp
  qed
  from 1 2 3 4 5 show ?thesis by blast
qed

text \<open>
  The theorem at three masts on the line \<open>x = 0\<close>: the largest is kept, the one exactly
  1.5 m away is kept too, the one 1 m away is removed.
\<close>

theorem remove_duplicate_masts_greedy_witness:
  "remove_duplicate_masts [mast_near, mast_edge, mast_big] (3 / 2) = ([mast_big, mast_edge], 1) \<and>
   mset [mast_big, mast_edge] \<subseteq># mset [mast_near, mast_edge, mast_big] \<and>
   3 / 2 \<le> mast_distance mast_big mast_edge \<and>
   mast_distance mast_near mast_big < 3 / 2 \<and>
   point_count mast_near \<le> point_count mast_big"
proof -
  note g = remove_duplicate_masts_greedy [OF dedup_example]
  from g have "\<forall>i j. i < j \<and> j < length [mast_big, mast_edge] \<longrightarrow>
      3 / 2 \<le> mast_distance ([mast_big, mast_edge] ! i) ([mast_big, mast_edge] ! j)"
    by (elim conjE)
  then have "(0::nat) < 1 \<and> 1 < length [mast_big, mast_edge] \<longrightarrow>
      3 / 2 \<le> mast_distance ([mast_big, mast_edge] ! 0) ([mast_big, mast_edge] ! 1)"
    by (elim allE)
  then have far: "3 / 2 \<le> mast_distance mast_big mast_edge" by simp
  from g have sub: "mset [mast_big, mast_edge] \<subseteq># mset [mast_near, mast_edge, mast_big]"
    by (elim conjE)
  from far sub dedup_example example_distances(2) show ?thesis
    by (simp add: example_point_counts)
qed

text \<open>
  Claim C7 as stated asks for a distance greater than 1.5 m between kept masts. Two masts
  exactly 1.5 m apart are both kept.
\<close>

theorem remove_duplicate_masts_strict_counterexample:
  "fst (remove_duplicate_masts [mast_edge, mast_big] (3 / 2)) = [mast_big, mast_edge] \<and>
   mast_distance mast_big mast_edge = 3 / 2 \<and>
   \<not> 3 / 2 < mast_distance mast_big mast_edge"
proof -
  have "sqrt ((3 / 2)\<^sup>2) = (3 / 2 :: real)"
    by (rule real_sqrt_unique) simp_all
  then have d: "mast_distance mast_big mast_edge = 3 / 2"
    by (simp add: mast_distance_def example_masts)
  have "fst (remove_duplicate_masts [mast_edge, mast_big] (3 / 2)) = [mast_big, mast_edge]"
    using example_distances
    by (simp add: remove_duplicate_masts_def sorted_masts_def example_point_counts)
  with d show ?thesis by simp
qed

subsection \<open>Claims C8 and C10: the quality score\<close>

lemmas mast_filter_defs = min_points_def max_points_def min_quality_score_def
  min_relative_height_def max_relative_height_def min_density_def max_density_def
  relative_height_def density_def

lemma example_quality:
  "calculate_mast_quality mast_noise ground_zero = Inr (44 / 100)"
  "calculate_mast_quality mast_big ground_zero = Inr 1"
  "calculate_mast_quality mast_worst ground_zero = Inr (79 / 100)"
  by (simp_all add: calculate_mast_quality_def weights_def mast_filter_defs ground_zero_def
      example_masts)

lemma process_example:
  "process_mast_chunk [mast_noise, mast_big, mast_worst] ground_zero =
     Inr ([mast_big, mast_worst],
          Some \<lparr>too_small = 1, too_large = 0, poor_quality = 0, duplicates_removed = 0,
                clean_masts = 2\<rparr>)"
proof -
  have f: "filter_loop ground_zero [mast_noise, mast_big, mast_worst] ([], initial_stats) =
      Inr ([mast_big, mast_worst],
           \<lparr>too_small = 1, too_large = 0, poor_quality = 0, duplicates_removed = 0,
                clean_masts = 2\<rparr>)"
    by (simp add: example_quality example_point_counts initial_stats_def min_points_def
        max_points_def min_quality_score_def)
  have "\<not> mast_distance mast_worst mast_big < 3 / 2"
    by (simp add: mast_distance_less_default example_masts power2_eq_square)
  then have d: "remove_duplicate_masts [mast_big, mast_worst] (3 / 2) = ([mast_big, mast_worst], 0)"
    by (simp add: remove_duplicate_masts_def sorted_masts_def example_point_counts)
  show ?thesis
    unfolding process_mast_chunk_def f by (simp add: d)
qed


text \<open>
  Claim C8. Whenever \<^verbatim>\<open>calculate_mast_quality\<close> returns a score for a mast, the score is
  0.5 times the point-count factor plus 0.3 times the height factor plus 0.2 times the
  density factor, each factor between 0 and 1; and in a run of \<^verbatim>\<open>process_mast_chunk\<close>
  over the same chunk bounds a mast whose score is below \<^verbatim>\<open>min_quality_score\<close> (0.6) is
  not among the clean masts.
\<close>

theorem mast_quality_weighted_threshold:
  assumes "calculate_mast_quality m b = Inr q"
    and "process_mast_chunk masts b = Inr (kept, stats)"
  shows "(\<exists>g. b ''min_z'' = Some g \<and>
            q = 5 / 10 * quality_factors m g PointCount + 3 / 10 * quality_factors m g Height
                + 2 / 10 * quality_factors m g Density \<and>
            (\<forall>k. 0 \<le> quality_factors m g k \<and> quality_factors m g k \<le> 1)) \<and>
         (q < min_quality_score \<longrightarrow> m \<notin> set kept)"
proof -
  from assms(1) obtain g where g: "b ''min_z'' = Some g"
    by (auto simp: calculate_mast_quality_def split: option.splits)
  from assms(1) calculate_mast_quality_sum [of b g m, OF g]
  have q: "q = 5 / 10 * quality_factors m g PointCount + 3 / 10 * quality_factors m g Height
                + 2 / 10 * quality_factors m g Density"
    by simp
  have "m \<notin> set kept" if low: "q < min_quality_score"
  proof
    assume mk: "m \<in> set kept"
    then have ne: "masts \<noteq> []" using assms(2)
      by (auto simp: process_mast_chunk_def)
    with assms(2) obtain clean st where
      f: "filter_loop b masts ([], initial_stats) = Inr (clean, st)"
      and k: "kept = fst (remove_duplicate_masts clean (3 / 2))"
      by (auto simp: process_mast_chunk_def split: sum.splits prod.splits)
    from k mk remove_duplicate_masts_set have "m \<in> set clean" by blast
    with filter_loop_inv [OF f] obtain q' where
      "calculate_mast_quality m b = Inr q'" "min_quality_score \<le> q'"
      by auto
    with assms(1) low show False by simp
  qed
  with g q quality_factors_range show ?thesis by blast
qed

text \<open>The theorem at a mast of 50 points (score 0.44), which the run drops.\<close>

theorem mast_quality_weighted_threshold_witness:
  "calculate_mast_quality mast_noise ground_zero = Inr (44 / 100) \<and>
   (\<exists>stats. process_mast_chunk [mast_noise, mast_big, mast_worst] ground_zero
      = Inr ([mast_big, mast_worst], stats)) \<and>
   44 / 100 < min_quality_score \<and>
   mast_noise \<notin> set [mast_big, mast_worst]"
proof -
  have "44 / 100 < min_quality_score \<longrightarrow> mast_noise \<notin> set [mast_big, mast_worst]"
    using mast_quality_weighted_threshold [OF example_quality(1) process_example] by (elim conjE)
  moreover have "44 / 100 < min_quality_score" by (simp add: min_quality_score_def)
  ultimately show ?thesis using example_quality(1) process_example by simp
qed

text \<open>
  Claim C10. A mast whose point count lies within \<^verbatim>\<open>min_points\<close> and \<^verbatim>\<open>max_points\<close> scores
  at least 0.5 + 0.3 * 0.5 + 0.2 * 0.7 = 0.79, above the threshold 0.6; and the counter
  \<^verbatim>\<open>poor_quality\<close> of every run that returns statistics is 0, so the branch that
  increments it is never taken.
\<close>

theorem mast_quality_in_bounds:
  "(min_points \<le> point_count m \<and> point_count m \<le> max_points \<and>
      calculate_mast_quality m b = Inr q \<longrightarrow> 79 / 100 \<le> q \<and> min_quality_score < q) \<and>
   (process_mast_chunk masts b = Inr (kept, Some stats) \<longrightarrow> poor_quality stats = 0)"
proof -
  have 1: "79 / 100 \<le> q \<and> min_quality_score < q"
    if "min_points \<le> point_count m" "point_count m \<le> max_points"
       "calculate_mast_quality m b = Inr q"
    using quality_in_bounds [OF that] by (simp add: min_quality_score_def)
  have 2: "poor_quality stats = 0" if p: "process_mast_chunk masts b = Inr (kept, Some stats)"
  proof -
    from p have ne: "masts \<noteq> []"
      by (auto simp: process_mast_chunk_def)
    with p obtain clean st where
      f: "filter_loop b masts ([], initial_stats) = Inr (clean, st)"
      and k: "stats = st\<lparr>duplicates_removed := snd (remove_duplicate_masts clean (3 / 2)),
                          clean_masts := length (fst (remove_duplicate_masts clean (3 / 2)))\<rparr>"
      by (auto simp: process_mast_chunk_def split: sum.splits prod.splits)
    from filter_loop_inv [OF f] have "poor_quality st = 0"
      by (simp add: initial_stats_def)
    with k show ?thesis by simp
  qed
  from 1 2 show ?thesis by blast
qed

text \<open>The theorem at a mast with both the height and the density out of range: score 0.79.\<close>

theorem mast_quality_in_bounds_witness:
  "min_points \<le> point_count mast_worst \<and> point_count mast_worst \<le> max_points \<and>
   calculate_mast_quality mast_worst ground_zero = Inr (79 / 100) \<and>
   min_quality_score < 79 / 100 \<and>
   process_mast_chunk [mast_noise, mast_big, mast_worst] ground_zero =
     Inr ([mast_big, mast_worst],
          Some \<lparr>too_small = 1, too_large = 0, poor_quality = 0, duplicates_removed = 0,
                clean_masts = 2\<rparr>) \<and>
   poor_quality \<lparr>too_small = 1, too_large = 0, poor_quality = 0, duplicates_removed = 0,
                clean_masts = 2\<rparr> = 0"
proof -
  note t = mast_quality_in_bounds [of mast_worst ground_zero "79 / 100"
      "[mast_noise, mast_big, mast_worst]" "[mast_big, mast_worst]"
      "\<lparr>too_small = 1, too_large = 0, poor_quality = 0, duplicates_removed = 0,
                clean_masts = 2\<rparr>"]
  have b: "min_points \<le> point_count mast_worst \<and> point_count mast_worst \<le> max_points"
    by (simp add: example_point_counts min_points_def max_points_def)
  with t example_quality(3) have "min_quality_score < 79 / 100" by blast
  moreover from t process_example
  have "poor_quality \<lparr>too_small = 1, too_large = 0, poor_quality = 0, duplicates_removed = 0,
                clean_masts = 2\<rparr> = 0"
    by blast
  ultimately show ?thesis using b example_quality(3) process_example by simp
qed

section \<open>Properties of the building extraction\<close>

subsection \<open>Geometry metrics on degenerate input\<close>




lemma compactness_degenerate: "perimeter \<le> 0 \<Longrightarrow> calculate_compactness area perimeter = 0"
  by (simp add: calculate_compactness_def)






subsection \<open>The overlap test and the candidate loop\<close>

lemma has_overlap_iff:
  "new \<noteq> [] \<Longrightarrow> \<forall>e \<in> set es. e \<noteq> [] \<Longrightarrow>
   has_overlap_with_existing new es d \<longleftrightarrow>
     (\<exists>e \<in> set es. \<not> bbox_disjoint new e \<and> center_distance new e < d)"
  by (induction es) auto

lemma area_ge_nonempty: "\<not> calculate_polygon_area coords < 20 \<Longrightarrow> coords \<noteq> []"
  by (auto simp: calculate_polygon_area_def)

lemma candidate_step_inv:
  assumes "\<forall>p \<in> set (building_polygons st). p \<noteq> []"
    and "sorted_wrt apart (building_polygons st)"
  shows "\<exists>st'. candidate_step st c = Inr st' \<and>
           (\<forall>p \<in> set (building_polygons st'). p \<noteq> []) \<and>
           sorted_wrt apart (building_polygons st')"
proof (cases "n_points c < 80 \<or> cluster_density c < 3 / 10 \<or> polygon_coords c = None")
  case True
  with assms show ?thesis
    by (auto simp: candidate_step_def reject_def)
next
  case False
  then obtain coords where co: "polygon_coords c = Some coords" by auto
  show ?thesis
  proof (cases "calculate_polygon_area coords < 20 \<or> calculate_polygon_area coords > 5000 \<or>
      calculate_aspect_ratio coords > 12 \<or>
      has_overlap_with_existing coords (building_polygons st) 8")
    case True
    with False co assms show ?thesis
      by (auto simp: candidate_step_def reject_def Let_def)
  next
    case acc: False
    then have ne: "coords \<noteq> []" using area_ge_nonempty by blast
    then obtain ring where ring: "close_ring coords = Inr ring"
      by (cases coords) (auto simp: close_ring_def)
    from acc have "\<not> has_overlap_with_existing coords (building_polygons st) 8" by simp
    with has_overlap_iff [OF ne assms(1)]
    have "\<forall>e \<in> set (building_polygons st). apart e coords"
      by (auto simp: apart_def not_less)
    with assms ne have
      "(\<forall>p \<in> set (building_polygons st @ [coords]). p \<noteq> []) \<and>
       sorted_wrt apart (building_polygons st @ [coords])"
      by (auto simp: sorted_wrt_append)
    with False co acc ring show ?thesis
      by (simp add: candidate_step_def Let_def)
  qed
qed

lemma candidate_loop_inv:
  "\<forall>p \<in> set (building_polygons st). p \<noteq> [] \<Longrightarrow> sorted_wrt apart (building_polygons st) \<Longrightarrow>
   \<exists>st'. candidate_loop st cs = Inr st' \<and>
           (\<forall>p \<in> set (building_polygons st'). p \<noteq> []) \<and>
           sorted_wrt apart (building_polygons st')"
proof (induction cs arbitrary: st)
  case Nil
  then show ?case by simp
next
  case (Cons c cs)
  from candidate_step_inv [OF Cons.prems, of c] obtain st1 where
    s: "candidate_step st c = Inr st1" and
    i: "\<forall>p \<in> set (building_polygons st1). p \<noteq> []" "sorted_wrt apart (building_polygons st1)"
    by blast
  from Cons.IH [OF i] s show ?case by simp
qed

lemma upto_ring4: "[- 1 .. (2::int)] = [- 1, 0, 1, 2]"
  by code_simp

lemma sqrt_examples: "sqrt 4 = 2" "sqrt 144 = 12" "sqrt 100 = 10"
  by (rule real_sqrt_unique; simp)+

lemmas bbox_defs = bbox_disjoint_def center_distance_def center_x_def center_y_def
  min_x_def max_x_def min_y_def max_y_def py_min_def py_max_def

lemma example_areas:
  "calculate_polygon_area strip_west = 24" "calculate_polygon_area strip_east = 24"
  "calculate_polygon_area square_over = 100"
  by (simp_all add: calculate_polygon_area_def strip_west_def strip_east_def square_over_def
      py_index_def upto_ring4 Let_def)

lemma example_aspects:
  "calculate_aspect_ratio strip_west = 6" "calculate_aspect_ratio strip_east = 6"
  "calculate_aspect_ratio square_over = 1"
  by (simp_all add: calculate_aspect_ratio_def edge_length_def strip_west_def strip_east_def
      square_over_def sqrt_examples)

lemma example_boxes:
  "bbox_disjoint strip_east strip_west"
  "\<not> bbox_disjoint square_over strip_west"
  by (simp_all add: bbox_defs strip_west_def strip_east_def square_over_def)

lemma center_distance_less_8:
  "center_distance a b < 8 \<longleftrightarrow>
     (center_x a - center_x b)\<^sup>2 + (center_y a - center_y b)\<^sup>2 < 64"
proof -
  have "sqrt 64 = 8" by (rule real_sqrt_unique) simp_all
  then show ?thesis
    unfolding center_distance_def by (metis real_sqrt_less_iff)
qed

lemma example_centers:
  "center_distance strip_east strip_west < 8"
  "center_distance square_over strip_west < 8"
  by (simp_all add: center_distance_less_8 center_x_def center_y_def min_x_def max_x_def
      min_y_def max_y_def py_min_def py_max_def strip_west_def strip_east_def square_over_def
      power2_eq_square)

lemma example_nonempty: "strip_west \<noteq> []" "strip_east \<noteq> []" "square_over \<noteq> []"
  by (simp_all add: strip_west_def strip_east_def square_over_def)

lemma example_overlaps:
  "\<not> has_overlap_with_existing strip_west [] 8"
  "\<not> has_overlap_with_existing strip_east [strip_west] 8"
  "has_overlap_with_existing square_over [strip_west] 8"
  by (simp_all add: example_nonempty example_boxes example_centers)

lemma candidate_step_accept:
  assumes "80 \<le> n_points c" "3 / 10 \<le> cluster_density c" "polygon_coords c = Some coords"
    and "20 \<le> calculate_polygon_area coords" "calculate_polygon_area coords \<le> 5000"
    and "calculate_aspect_ratio coords \<le> 12"
    and "\<not> has_overlap_with_existing coords (building_polygons st) 8"
  shows "\<exists>st'. candidate_step st c = Inr st' \<and>
           building_polygons st' = building_polygons st @ [coords]"
proof -
  from assms(4) have "coords \<noteq> []" using area_ge_nonempty [of coords] by simp
  then obtain ring where "close_ring coords = Inr ring"
    by (cases coords) (auto simp: close_ring_def)
  with assms show ?thesis
    by (simp add: candidate_step_def Let_def not_less [symmetric])
qed

lemma candidate_step_overlap:
  assumes "80 \<le> n_points c" "3 / 10 \<le> cluster_density c" "polygon_coords c = Some coords"
    and "20 \<le> calculate_polygon_area coords" "calculate_polygon_area coords \<le> 5000"
    and "calculate_aspect_ratio coords \<le> 12"
    and "has_overlap_with_existing coords (building_polygons st) 8"
  shows "\<exists>st'. candidate_step st c = Inr st' \<and> building_polygons st' = building_polygons st"
  using assms by (simp add: candidate_step_def Let_def reject_def not_less [symmetric])

lemma example_candidates:
  "80 \<le> n_points cand_west" "3 / 10 \<le> cluster_density cand_west"
  "polygon_coords cand_west = Some strip_west"
  "80 \<le> n_points cand_east" "3 / 10 \<le> cluster_density cand_east"
  "polygon_coords cand_east = Some strip_east"
  "80 \<le> n_points cand_over" "3 / 10 \<le> cluster_density cand_over"
  "polygon_coords cand_over = Some square_over"
  by (simp_all add: cand_west_def cand_east_def cand_over_def)

lemma example_loop:
  "map_sum id building_polygons
     (candidate_loop initial_loop_state [cand_west, cand_over, cand_east])
   = Inr [strip_west, strip_east]"
proof -
  have "\<not> has_overlap_with_existing strip_west (building_polygons initial_loop_state) 8"
    by (simp add: initial_loop_state_def)
  from candidate_step_accept [OF example_candidates(1-3) _ _ _ this]
  obtain s1 where s1: "candidate_step initial_loop_state cand_west = Inr s1"
    "building_polygons s1 = [strip_west]"
    by (auto simp: example_areas example_aspects initial_loop_state_def)
  have "has_overlap_with_existing square_over (building_polygons s1) 8"
    by (simp add: s1(2) example_nonempty example_boxes example_centers)
  from candidate_step_overlap [OF example_candidates(7-9) _ _ _ this]
  obtain s2 where s2: "candidate_step s1 cand_over = Inr s2"
    "building_polygons s2 = [strip_west]"
    by (auto simp: example_areas example_aspects s1(2))
  have "\<not> has_overlap_with_existing strip_east (building_polygons s2) 8"
    by (simp add: s2(2) example_nonempty example_boxes example_centers)
  from candidate_step_accept [OF example_candidates(4-6) _ _ _ this]
  obtain s3 where s3: "candidate_step s2 cand_east = Inr s3"
    "building_polygons s3 = [strip_west, strip_east]"
    by (auto simp: example_areas example_aspects s2(2))
  show ?thesis by (simp add: s1 s2 s3)
qed

lemma example_loop_pair:
  "map_sum id building_polygons (candidate_loop initial_loop_state [cand_west, cand_east])
   = Inr [strip_west, strip_east]"
proof -
  have "\<not> has_overlap_with_existing strip_west (building_polygons initial_loop_state) 8"
    by (simp add: initial_loop_state_def)
  from candidate_step_accept [OF example_candidates(1-3) _ _ _ this]
  obtain s1 where s1: "candidate_step initial_loop_state cand_west = Inr s1"
    "building_polygons s1 = [strip_west]"
    by (auto simp: example_areas example_aspects initial_loop_state_def)
  have "\<not> has_overlap_with_existing strip_east (building_polygons s1) 8"
    by (simp add: s1(2) example_nonempty example_boxes example_centers)
  from candidate_step_accept [OF example_candidates(4-6) _ _ _ this]
  obtain s3 where s3: "candidate_step s1 cand_east = Inr s3"
    "building_polygons s3 = [strip_west, strip_east]"
    by (auto simp: example_areas example_aspects s1(2))
  show ?thesis by (simp add: s1 s3)
qed

text \<open>
  Claim C1, as amended. The candidate loop always runs to its end, and every two accepted
  polygons either have axis-aligned bounding boxes that do not meet or have bounding-box
  centres at least 8 m apart. Equivalently, for non-empty coordinate lists,
  \<^verbatim>\<open>has_overlap_with_existing\<close> rejects a candidate exactly when some already accepted
  polygon has a bounding box meeting the candidate's and a box centre closer than
  \<^verbatim>\<open>min_distance\<close> to the candidate's.
\<close>

theorem accepted_instances_apart:
  "(\<exists>st. candidate_loop initial_loop_state cs = Inr st \<and>
      (\<forall>i j. i < j \<and> j < length (building_polygons st) \<longrightarrow>
         bbox_disjoint (building_polygons st ! j) (building_polygons st ! i) \<or>
         8 \<le> center_distance (building_polygons st ! j) (building_polygons st ! i))) \<and>
   (new_coords \<noteq> [] \<and> (\<forall>e \<in> set existing. e \<noteq> []) \<longrightarrow>
      has_overlap_with_existing new_coords existing min_distance =
        (\<exists>e \<in> set existing. \<not> bbox_disjoint new_coords e \<and>
           center_distance new_coords e < min_distance))"
proof -
  have "\<forall>p \<in> set (building_polygons initial_loop_state). p \<noteq> []"
    "sorted_wrt apart (building_polygons initial_loop_state)"
    by (simp_all add: initial_loop_state_def)
  from candidate_loop_inv [OF this, of cs] obtain st where
    st: "candidate_loop initial_loop_state cs = Inr st" "sorted_wrt apart (building_polygons st)"
    by blast
  from st(2) have "\<forall>i j. i < j \<and> j < length (building_polygons st) \<longrightarrow>
         bbox_disjoint (building_polygons st ! j) (building_polygons st ! i) \<or>
         8 \<le> center_distance (building_polygons st ! j) (building_polygons st ! i)"
    by (auto simp: sorted_wrt_iff_nth_less apart_def)
  with st(1) has_overlap_iff [of new_coords existing min_distance] show ?thesis by blast
qed

text \<open>
  The theorem at three candidates: the western strip is accepted, the square over it is
  rejected for overlap, the eastern strip is accepted.
\<close>

theorem accepted_instances_apart_witness:
  "map_sum id building_polygons
     (candidate_loop initial_loop_state [cand_west, cand_over, cand_east])
     = Inr [strip_west, strip_east] \<and>
   (bbox_disjoint strip_east strip_west \<or> 8 \<le> center_distance strip_east strip_west) \<and>
   square_over \<noteq> [] \<and> strip_west \<noteq> [] \<and>
   has_overlap_with_existing square_over [strip_west] 8 \<and>
   \<not> bbox_disjoint square_over strip_west \<and>
   center_distance square_over strip_west < 8"
proof -
  note t = accepted_instances_apart [of "[cand_west, cand_over, cand_east]" square_over
      "[strip_west]" 8]
  from t obtain st where st: "candidate_loop initial_loop_state [cand_west, cand_over, cand_east]
      = Inr st"
    and far: "\<forall>i j. i < j \<and> j < length (building_polygons st) \<longrightarrow>
         bbox_disjoint (building_polygons st ! j) (building_polygons st ! i) \<or>
         8 \<le> center_distance (building_polygons st ! j) (building_polygons st ! i)"
    by blast
  from st example_loop have p: "building_polygons st = [strip_west, strip_east]" by simp
  from far have "(0::nat) < 1 \<and> 1 < length (building_polygons st) \<longrightarrow>
         bbox_disjoint (building_polygons st ! 1) (building_polygons st ! 0) \<or>
         8 \<le> center_distance (building_polygons st ! 1) (building_polygons st ! 0)"
    by (elim allE)
  with p have 1: "bbox_disjoint strip_east strip_west \<or> 8 \<le> center_distance strip_east strip_west"
    by simp
  from t example_nonempty example_overlaps(3)
  have "\<exists>e \<in> set [strip_west]. \<not> bbox_disjoint square_over e \<and> center_distance square_over e < 8"
    by simp
  then have 2: "\<not> bbox_disjoint square_over strip_west \<and> center_distance square_over strip_west < 8"
    by simp
  from 1 2 example_loop example_nonempty example_overlaps(3) show ?thesis by simp
qed

text \<open>
  Claim C1 as stated asks for centres at least 8 m apart. The two strips are 5.5 m apart,
  farther than the clustering radius of 5 m, their boxes do not meet and their centres are
  7.5 m apart: both are accepted.
\<close>

theorem accepted_instances_distance_counterexample:
  "map_sum id building_polygons (candidate_loop initial_loop_state [cand_west, cand_east])
     = Inr [strip_west, strip_east] \<and>
   center_distance strip_east strip_west < 8 \<and>
   \<not> has_overlap_with_existing strip_east [strip_west] 8"
  using example_loop_pair example_centers(1) example_overlaps(2) by simp

text \<open>
  The same for the loop over the clusters of a run, whatever Qhull yields for them.
\<close>

lemma building_loop_apart:
  "\<exists>st. building_loop qh clusters = Inr st \<and> sorted_wrt apart (building_polygons st)"
proof -
  have "\<forall>p \<in> set (building_polygons initial_loop_state). p \<noteq> []"
    "sorted_wrt apart (building_polygons initial_loop_state)"
    by (simp_all add: initial_loop_state_def)
  from candidate_loop_inv [OF this, of "map (candidate_of qh) clusters"]
  show ?thesis by (auto simp: building_loop_def)
qed
section \<open>Properties of the point stages\<close>

lemma np_select_map: "np_select xs (map P xs) = filter P xs"
  unfolding np_select_def by (induction xs) auto

subsection \<open>Voxel filter\<close>

lemma first_index_find:
  "v \<in> f ` set xs \<Longrightarrow>
   first_index (map f xs) v < length xs \<and>
   find (\<lambda>p. f p = v) xs = Some (xs ! first_index (map f xs) v)"
  by (induction xs) auto

lemma voxel_filter_eq:
  "voxel_filter v pts =
     map (\<lambda>k. pts ! first_index (map (voxel_index v) pts) k)
         (sort (remdups (map (voxel_index v) pts)))"
  by (simp add: voxel_filter_def np_unique_rows_def Let_def comp_def)

lemma voxel_filter_voxels:
  "map (voxel_index v) (voxel_filter v pts) = sort (remdups (map (voxel_index v) pts))"
proof -
  have "\<And>k. k \<in> set (sort (remdups (map (voxel_index v) pts))) \<Longrightarrow>
      voxel_index v (pts ! first_index (map (voxel_index v) pts) k) = k"
  proof -
    fix k assume "k \<in> set (sort (remdups (map (voxel_index v) pts)))"
    then have k: "k \<in> voxel_index v ` set pts" by simp
    from first_index_find [OF k] have "find (\<lambda>p. voxel_index v p = k) pts
        = Some (pts ! first_index (map (voxel_index v) pts) k)" by simp
    then show "voxel_index v (pts ! first_index (map (voxel_index v) pts) k) = k"
      by (auto simp: find_Some_iff)
  qed
  then have "map (\<lambda>k. voxel_index v (pts ! first_index (map (voxel_index v) pts) k))
      (sort (remdups (map (voxel_index v) pts))) = sort (remdups (map (voxel_index v) pts))"
    by (intro map_idI) simp
  then show ?thesis
    unfolding voxel_filter_eq by (simp add: comp_def)
qed

lemma voxel_filter_length: "length (voxel_filter v pts) \<le> length pts"
proof -
  have "length (voxel_filter v pts) = length (remdups (map (voxel_index v) pts))"
    by (simp add: voxel_filter_eq)
  also have "\<dots> \<le> length (map (voxel_index v) pts)" by (rule length_remdups_leq)
  finally show ?thesis by simp
qed

lemma voxel_filter_first:
  assumes "q \<in> set (voxel_filter v pts)"
  shows "find (\<lambda>p. voxel_index v p = voxel_index v q) pts = Some q"
proof -
  from assms obtain k where k: "k \<in> voxel_index v ` set pts"
    and q: "q = pts ! first_index (map (voxel_index v) pts) k"
    by (auto simp: voxel_filter_eq)
  from first_index_find [OF k] have f: "find (\<lambda>p. voxel_index v p = k) pts = Some q"
    using q by simp
  then have "voxel_index v q = k" by (auto simp: find_Some_iff)
  with f show ?thesis by simp
qed

lemma voxel_filter_subset: "set (voxel_filter v pts) \<subseteq> set pts"
proof
  fix q assume "q \<in> set (voxel_filter v pts)"
  from voxel_filter_first [OF this] show "q \<in> set pts"
    by (auto simp: find_Some_iff)
qed

lemma filter_key_distinct:
  "distinct (map f xs) \<Longrightarrow> q \<in> set xs \<Longrightarrow> filter (\<lambda>x. f x = f q) xs = [q]"
proof (induction xs)
  case Nil
  then show ?case by simp
next
  case (Cons x xs)
  show ?case
  proof (cases "x = q")
    case True
    with Cons.prems(1) have "f q \<notin> f ` set xs" by simp
    then have "\<forall>y \<in> set xs. f y \<noteq> f q" by (metis imageI)
    then have "filter (\<lambda>x. f x = f q) xs = []" by (simp add: filter_empty_conv)
    with True show ?thesis by simp
  next
    case False
    with Cons.prems have q: "q \<in> set xs" and "f x \<noteq> f q" by auto
    with Cons.IH Cons.prems(1) show ?thesis by simp
  qed
qed

text \<open>Per value of the index: the output holds the first input point with that index, once.\<close>

lemma voxel_filter_per_index:
  "filter (\<lambda>q. voxel_index v q = c) (voxel_filter v pts) =
     (case find (\<lambda>p. voxel_index v p = c) pts of None \<Rightarrow> [] | Some p \<Rightarrow> [p])"
proof (cases "c \<in> voxel_index v ` set pts")
  case False
  then have "find (\<lambda>p. voxel_index v p = c) pts = None"
    by (auto simp: find_None_iff)
  moreover from False voxel_filter_subset [of v pts]
  have "filter (\<lambda>q. voxel_index v q = c) (voxel_filter v pts) = []"
    by (auto simp: filter_empty_conv)
  ultimately show ?thesis by simp
next
  case True
  then have "c \<in> set (map (voxel_index v) (voxel_filter v pts))"
    by (simp add: voxel_filter_voxels)
  then obtain q where q: "q \<in> set (voxel_filter v pts)" "voxel_index v q = c" by auto
  have d: "distinct (map (voxel_index v) (voxel_filter v pts))"
    by (simp add: voxel_filter_voxels)
  from filter_key_distinct [OF d q(1)] q(2)
  have "filter (\<lambda>x. voxel_index v x = c) (voxel_filter v pts) = [q]" by simp
  moreover from voxel_filter_first [OF q(1)] q(2)
  have "find (\<lambda>p. voxel_index v p = c) pts = Some q" by simp
  ultimately show ?thesis by simp
qed

subsection \<open>The index of a point names the grid cell it lies in\<close>

lemma astype_int_floor:
  assumes "- (2 ^ 63) \<le> (r :: real)" "r < 2 ^ 63"
  shows "astype_int (of_int \<lfloor>r\<rfloor>) = \<lfloor>r\<rfloor>"
proof -
  from assms(1) have "(- (2 ^ 63) :: int) \<le> \<lfloor>r\<rfloor>" by (simp add: le_floor_iff)
  then have "(of_int (- (2 ^ 63)) :: real) \<le> of_int \<lfloor>r\<rfloor>" by (simp only: of_int_le_iff)
  then have lo: "- (2 ^ 63) \<le> (of_int \<lfloor>r\<rfloor> :: real)" by simp
  have "of_int \<lfloor>r\<rfloor> \<le> r" by simp
  with assms(2) have hi: "(of_int \<lfloor>r\<rfloor> :: real) < 2 ^ 63" by linarith
  from lo hi show ?thesis by (simp add: astype_int_def)
qed

lemma floor_cell:
  assumes "0 < v"
  shows "\<lfloor>x / v\<rfloor> = i \<longleftrightarrow> of_int i * v \<le> x \<and> x < (of_int i + 1) * v"
  using assms by (simp add: floor_eq_iff pos_le_divide_eq pos_divide_less_eq)

lemma voxel_index_cell:
  assumes "0 < v" "in_int64_range v p"
  shows "voxel_index v p = c \<longleftrightarrow> grid_cell v c p"
proof -
  obtain x y z where p: "p = (x, y, z)" by (cases p)
  obtain i j k where c: "c = (i, j, k)" by (cases c)
  from assms(2) p have
    "astype_int (of_int \<lfloor>x / v\<rfloor>) = \<lfloor>x / v\<rfloor>"
    "astype_int (of_int \<lfloor>y / v\<rfloor>) = \<lfloor>y / v\<rfloor>"
    "astype_int (of_int \<lfloor>z / v\<rfloor>) = \<lfloor>z / v\<rfloor>"
    by (simp_all add: in_int64_range_def astype_int_floor)
  then show ?thesis
    using floor_cell [OF assms(1)] by (simp add: voxel_index_def grid_cell_def p c)
qed

text \<open>
  Claim C5, as amended. For every point cloud and edge length the reducer returns points
  of its input, at most as many as it was given; the output is a function of the input
  sequence, which is what being deterministic means here. If the edge length is positive
  and every coordinate divided by it lies in the range of a signed 64-bit integer, then
  for every voxel of the grid the output holds exactly the first input point, in input
  order, that lies in the voxel, and holds no point of a voxel that no input point
  occupies.
\<close>

theorem voxel_filter_one_per_cell:
  "length (voxel_filter voxel_size points_3d) \<le> length points_3d \<and>
   set (voxel_filter voxel_size points_3d) \<subseteq> set points_3d \<and>
   (0 < voxel_size \<and> (\<forall>p \<in> set points_3d. in_int64_range voxel_size p) \<longrightarrow>
      (\<forall>c. filter (grid_cell voxel_size c) (voxel_filter voxel_size points_3d) =
            (case find (grid_cell voxel_size c) points_3d of None \<Rightarrow> [] | Some p \<Rightarrow> [p])))"
proof (intro conjI impI allI)
  show "length (voxel_filter voxel_size points_3d) \<le> length points_3d"
    by (rule voxel_filter_length)
  show "set (voxel_filter voxel_size points_3d) \<subseteq> set points_3d"
    by (rule voxel_filter_subset)
next
  fix c
  assume h: "0 < voxel_size \<and> (\<forall>p \<in> set points_3d. in_int64_range voxel_size p)"
  then have cell: "\<And>p. p \<in> set points_3d \<Longrightarrow>
      (voxel_index voxel_size p = c) = grid_cell voxel_size c p"
    using voxel_index_cell by blast
  have "filter (grid_cell voxel_size c) (voxel_filter voxel_size points_3d) =
      filter (\<lambda>q. voxel_index voxel_size q = c) (voxel_filter voxel_size points_3d)"
    using cell voxel_filter_subset [of voxel_size points_3d]
    by (intro filter_cong) auto
  moreover have "find (grid_cell voxel_size c) points_3d =
      find (\<lambda>p. voxel_index voxel_size p = c) points_3d"
    using cell by (intro find_cong) auto
  ultimately show "filter (grid_cell voxel_size c) (voxel_filter voxel_size points_3d) =
            (case find (grid_cell voxel_size c) points_3d of None \<Rightarrow> [] | Some p \<Rightarrow> [p])"
    by (simp add: voxel_filter_per_index)
qed

lemma floor_minus_one: "\<lfloor>- 1 :: real\<rfloor> = - 1"
  using floor_of_int [of "- 1", where ?'a = real] by simp

lemma voxel_filter_example:
  "voxel_filter (1 / 4) cloud_example = [(- 1 / 10, 0, 0), (1 / 10, 1 / 10, 1 / 10), (1, 1, 1)]"
  by (simp add: voxel_filter_eq voxel_index_def astype_int_def less_prod_def less_eq_prod_def
      cloud_example_def floor_minus_one)

lemma cloud_example_range: "\<forall>p \<in> set cloud_example. in_int64_range (1 / 4) p"
  by (simp add: cloud_example_def in_int64_range_def)

text \<open>
  The theorem on five points in three voxels of edge 0.25: the voxel at the origin keeps
  the first of its two points, an empty voxel gets none.
\<close>

theorem voxel_filter_one_per_cell_witness:
  "(0 :: real) < 1 / 4 \<and>
   voxel_filter (1 / 4) cloud_example = [(- 1 / 10, 0, 0), (1 / 10, 1 / 10, 1 / 10), (1, 1, 1)] \<and>
   length [(- 1 / 10, 0, 0), (1 / 10, 1 / 10, 1 / 10), (1, 1, 1 :: real)] \<le> length cloud_example \<and>
   find (grid_cell (1 / 4) (0, 0, 0)) cloud_example = Some (1 / 10, 1 / 10, 1 / 10) \<and>
   filter (grid_cell (1 / 4) (0, 0, 0)) (voxel_filter (1 / 4) cloud_example)
     = [(1 / 10, 1 / 10, 1 / 10)] \<and>
   find (grid_cell (1 / 4) (7, 7, 7)) cloud_example = None \<and>
   filter (grid_cell (1 / 4) (7, 7, 7)) (voxel_filter (1 / 4) cloud_example) = []"
proof -
  note t = voxel_filter_one_per_cell [of "1 / 4" cloud_example]
  have v: "(0 :: real) < 1 / 4" by simp
  from t have len: "length (voxel_filter (1 / 4) cloud_example) \<le> length cloud_example"
    by (elim conjE)
  from t v cloud_example_range have cells:
    "\<forall>c. filter (grid_cell (1 / 4) c) (voxel_filter (1 / 4) cloud_example) =
          (case find (grid_cell (1 / 4) c) cloud_example of None \<Rightarrow> [] | Some p \<Rightarrow> [p])"
    by blast
  have f0: "find (grid_cell (1 / 4) (0, 0, 0)) cloud_example = Some (1 / 10, 1 / 10, 1 / 10)"
    by (simp add: cloud_example_def grid_cell_def)
  have f7: "find (grid_cell (1 / 4) (7, 7, 7)) cloud_example = None"
    by (simp add: cloud_example_def grid_cell_def)
  from cells have "filter (grid_cell (1 / 4) (0, 0, 0)) (voxel_filter (1 / 4) cloud_example) =
          (case find (grid_cell (1 / 4) (0, 0, 0)) cloud_example of None \<Rightarrow> [] | Some p \<Rightarrow> [p])"
    by (elim allE)
  with f0 have c0: "filter (grid_cell (1 / 4) (0, 0, 0)) (voxel_filter (1 / 4) cloud_example)
     = [(1 / 10, 1 / 10, 1 / 10)]" by simp
  from cells have "filter (grid_cell (1 / 4) (7, 7, 7)) (voxel_filter (1 / 4) cloud_example) =
          (case find (grid_cell (1 / 4) (7, 7, 7)) cloud_example of None \<Rightarrow> [] | Some p \<Rightarrow> [p])"
    by (elim allE)
  with f7 have c7: "filter (grid_cell (1 / 4) (7, 7, 7)) (voxel_filter (1 / 4) cloud_example) = []"
    by simp
  from len have "length [(- 1 / 10, 0, 0), (1 / 10, 1 / 10, 1 / 10), (1, 1, 1 :: real)]
      \<le> length cloud_example"
    by (simp add: voxel_filter_example)
  with v f0 c0 f7 c7 voxel_filter_example show ?thesis by simp
qed

lemma far_filter:
  "voxel_filter (1 / 4) cloud_far = [(1000000000000000000000000000000, 0, 0)]"
  by (simp add: voxel_filter_eq voxel_index_def astype_int_def less_prod_def less_eq_prod_def
      cloud_far_def)

text \<open>
  Claim C5 as stated speaks of every point cloud. The scaled coordinates \<open>4 * 10^30\<close> and
  \<open>8 * 10^30\<close> of two far points both leave the 64-bit range, the cast gives both the same
  index, and only the first point is kept: the voxel of the second is occupied and has no
  point in the output.
\<close>

theorem voxel_filter_far_counterexample:
  "(0 :: real) < 1 / 4 \<and>
   voxel_filter (1 / 4) cloud_far = [(1000000000000000000000000000000, 0, 0)] \<and>
   (2000000000000000000000000000000, 0, 0) \<in> set cloud_far \<and>
   grid_cell (1 / 4) (8000000000000000000000000000000, 0, 0)
     (2000000000000000000000000000000, 0, 0) \<and>
   \<not> grid_cell (1 / 4) (8000000000000000000000000000000, 0, 0)
     (1000000000000000000000000000000, 0, 0) \<and>
   filter (grid_cell (1 / 4) (8000000000000000000000000000000, 0, 0))
     (voxel_filter (1 / 4) cloud_far) = []"
  by (simp add: far_filter) (simp add: cloud_far_def grid_cell_def)

subsection \<open>Height filter\<close>

lemma np_percentile_between:
  assumes "a \<noteq> []" "0 \<le> q" "q \<le> 100"
  shows "\<exists>lo \<in> set a. \<exists>hi \<in> set a. lo \<le> np_percentile a q \<and> np_percentile a q \<le> hi"
proof -
  define s where "s = sort a"
  define n where "n = length a"
  define vi where "vi = real (n - 1) * q / 100"
  define previous where "previous = nat \<lfloor>vi\<rfloor>"
  define nxt where "nxt = min (previous + 1) (n - 1)"
  define gamma where "gamma = vi - real previous"
  have n: "0 < n" using assms(1) by (simp add: n_def)
  have vi0: "0 \<le> vi" using assms(2) by (simp add: vi_def)
  have "vi \<le> real (n - 1) * 100 / 100"
    unfolding vi_def using assms(3) by (intro divide_right_mono mult_left_mono) simp_all
  then have vi1: "vi \<le> real (n - 1)" by simp
  have pr: "real previous \<le> vi" using vi0 by (simp add: previous_def)
  have "\<lfloor>vi\<rfloor> \<le> int (n - 1)" using vi1 by (simp add: floor_le_iff)
  then have p1: "previous \<le> n - 1" by (simp add: previous_def)
  have g0: "0 \<le> gamma" using pr by (simp add: gamma_def)
  have "vi - real_of_int \<lfloor>vi\<rfloor> \<le> 1" by linarith
  moreover have "real previous = real_of_int \<lfloor>vi\<rfloor>" using vi0 by (simp add: previous_def)
  ultimately have g1: "gamma \<le> 1" by (simp add: gamma_def)
  have pn: "previous \<le> nxt" "nxt < n" using p1 n by (simp_all add: nxt_def)
  have srt: "sorted s" by (simp add: s_def)
  have ls: "length s = n" by (simp add: s_def n_def)
  from srt pn ls have le: "s ! previous \<le> s ! nxt"
    by (simp add: sorted_iff_nth_mono)
  have val: "np_percentile a q = s ! previous + gamma * (s ! nxt - s ! previous)"
    by (simp add: np_percentile_def Let_def s_def n_def vi_def previous_def nxt_def gamma_def)
  have lower: "s ! previous \<le> np_percentile a q"
    unfolding val using g0 le by simp
  have "gamma * (s ! nxt - s ! previous) \<le> 1 * (s ! nxt - s ! previous)"
    using g1 le by (intro mult_right_mono) simp_all
  then have upper: "np_percentile a q \<le> s ! nxt"
    unfolding val by simp
  have "s ! previous \<in> set s" "s ! nxt \<in> set s"
    using pn ls by simp_all
  then have "s ! previous \<in> set a" "s ! nxt \<in> set a" by (simp_all add: s_def)
  with lower upper show ?thesis by blast
qed

text \<open>
  Claim C6. For every non-empty cloud and every percentile between 0 and 100 the filter
  returns, in order, exactly the points whose height is strictly greater than the
  percentile of the heights; a point at or below the threshold is discarded. The
  threshold lies between two heights of the cloud.
\<close>

theorem height_filter_above_percentile:
  assumes "voxel_filtered \<noteq> []" "0 \<le> q" "q \<le> 100"
  shows
    "height_filter q voxel_filtered =
       filter (\<lambda>p. z_of p > np_percentile (map z_of voxel_filtered) q) voxel_filtered \<and>
     (\<forall>p. p \<in> set (height_filter q voxel_filtered) \<longleftrightarrow>
        p \<in> set voxel_filtered \<and> z_of p > np_percentile (map z_of voxel_filtered) q) \<and>
     (\<exists>lo \<in> set voxel_filtered. \<exists>hi \<in> set voxel_filtered.
        z_of lo \<le> np_percentile (map z_of voxel_filtered) q \<and>
        np_percentile (map z_of voxel_filtered) q \<le> z_of hi)"
proof -
  have eq: "height_filter q voxel_filtered =
       filter (\<lambda>p. z_of p > np_percentile (map z_of voxel_filtered) q) voxel_filtered"
    by (simp add: height_filter_def Let_def np_select_map comp_def)
  have "map z_of voxel_filtered \<noteq> []" using assms(1) by simp
  from np_percentile_between [OF this assms(2,3)]
  have "\<exists>lo \<in> set voxel_filtered. \<exists>hi \<in> set voxel_filtered.
        z_of lo \<le> np_percentile (map z_of voxel_filtered) q \<and>
        np_percentile (map z_of voxel_filtered) q \<le> z_of hi"
    by auto
  with eq show ?thesis by auto
qed

lemma percentile_example: "np_percentile (map z_of cloud_heights) 25 = 2"
  by (simp add: np_percentile_def cloud_heights_def z_of_def Let_def)

lemma height_filter_example:
  "height_filter 25 cloud_heights = [(0, 0, 4), (2, 0, 3), (4, 0, 5)]"
proof -
  have "height_filter 25 cloud_heights =
      filter (\<lambda>p. z_of p > 2) cloud_heights"
    by (simp add: height_filter_def Let_def np_select_map comp_def percentile_example)
  then show ?thesis by (simp add: cloud_heights_def z_of_def)
qed

text \<open>The theorem on five heights with the 25th percentile 2: the point of height 2 goes.\<close>

theorem height_filter_above_percentile_witness:
  "cloud_heights \<noteq> [] \<and> (0 :: real) \<le> 25 \<and> (25 :: real) \<le> 100 \<and>
   np_percentile (map z_of cloud_heights) 25 = 2 \<and>
   height_filter 25 cloud_heights = [(0, 0, 4), (2, 0, 3), (4, 0, 5)] \<and>
   (3, 0, 2) \<notin> set (height_filter 25 cloud_heights)"
proof -
  have ne: "cloud_heights \<noteq> []" by (simp add: cloud_heights_def)
  have q: "(0 :: real) \<le> 25" "(25 :: real) \<le> 100" by simp_all
  note t = height_filter_above_percentile [OF ne q]
  from t have "\<forall>p. p \<in> set (height_filter 25 cloud_heights) \<longleftrightarrow>
        p \<in> set cloud_heights \<and> z_of p > np_percentile (map z_of cloud_heights) 25"
    by (elim conjE)
  then have "(3, 0, 2) \<in> set (height_filter 25 cloud_heights) \<longleftrightarrow>
        (3, 0, 2) \<in> set cloud_heights \<and> z_of (3, 0, 2) > np_percentile (map z_of cloud_heights) 25"
    by (elim allE)
  then have "(3, 0, 2) \<notin> set (height_filter 25 cloud_heights)"
    by (simp add: percentile_example z_of_def)
  with ne percentile_example height_filter_example show ?thesis by simp
qed

subsection \<open>Outlier removal\<close>

lemma sort_replicate: "sort (replicate n (x::real)) = replicate n x"
  by (simp add: sorted_sort_id sorted_replicate)

lemma inlier_mask_select:
  "np_select rows (inlier_mask f m (map g rows)) =
     filter (\<lambda>p. mean_knn_distance (map g rows) (min m (length rows - 1)) (g p)
                  < outlier_threshold f
                      (map (mean_knn_distance (map g rows) (min m (length rows - 1))) (map g rows)))
            rows"
  by (simp add: inlier_mask_def Let_def np_select_map comp_def)

text \<open>
  Claim C4, as amended. With at least 20 points (buildings, 10 neighbours, factor 1.2) or
  at least 10 points (wires, 8 neighbours, factor 2.5) the filter keeps, in order, exactly
  the points whose mean distance to their nearest neighbours is strictly less than
  \<open>\<mu> + f \<sigma>\<close>; a point whose mean distance equals the threshold is discarded.
\<close>

theorem outlier_removal_strictly_below:
  "(20 \<le> length points_2d \<longrightarrow>
      (\<exists>clean. outlier_removal_buildings points_2d = Some clean \<and>
         clean = filter (\<lambda>p. mean_knn_distance points_2d 10 p
                    < outlier_threshold (6 / 5) (map (mean_knn_distance points_2d 10) points_2d))
                   points_2d \<and>
         (\<forall>p. mean_knn_distance points_2d 10 p
                = outlier_threshold (6 / 5) (map (mean_knn_distance points_2d 10) points_2d)
              \<longrightarrow> p \<notin> set clean))) \<and>
   (10 \<le> length height_filtered \<longrightarrow>
      (\<exists>clean. outlier_removal_wires height_filtered = Some clean \<and>
         clean = filter (\<lambda>p. mean_knn_distance (map xy_of height_filtered) 8 (xy_of p)
                    < outlier_threshold (5 / 2)
                        (map (mean_knn_distance (map xy_of height_filtered) 8)
                             (map xy_of height_filtered)))
                   height_filtered \<and>
         (\<forall>p. mean_knn_distance (map xy_of height_filtered) 8 (xy_of p)
                = outlier_threshold (5 / 2)
                    (map (mean_knn_distance (map xy_of height_filtered) 8)
                         (map xy_of height_filtered))
              \<longrightarrow> p \<notin> set clean)))"
proof (intro conjI impI)
  assume n: "20 \<le> length points_2d"
  then have k: "min 10 (length points_2d - 1) = 10" by simp
  have "outlier_removal_buildings points_2d =
      Some (filter (\<lambda>p. mean_knn_distance points_2d 10 p
                    < outlier_threshold (6 / 5) (map (mean_knn_distance points_2d 10) points_2d))
                   points_2d)"
    using n inlier_mask_select [of points_2d "6 / 5" 10 "\<lambda>p. p"] k
    by (simp add: outlier_removal_buildings_def)
  then show "\<exists>clean. outlier_removal_buildings points_2d = Some clean \<and>
         clean = filter (\<lambda>p. mean_knn_distance points_2d 10 p
                    < outlier_threshold (6 / 5) (map (mean_knn_distance points_2d 10) points_2d))
                   points_2d \<and>
         (\<forall>p. mean_knn_distance points_2d 10 p
                = outlier_threshold (6 / 5) (map (mean_knn_distance points_2d 10) points_2d)
              \<longrightarrow> p \<notin> set clean)"
    by simp
next
  assume n: "10 \<le> length height_filtered"
  then have k: "min 8 (length height_filtered - 1) = 8" by simp
  have "outlier_removal_wires height_filtered =
      Some (filter (\<lambda>p. mean_knn_distance (map xy_of height_filtered) 8 (xy_of p)
                    < outlier_threshold (5 / 2)
                        (map (mean_knn_distance (map xy_of height_filtered) 8)
                             (map xy_of height_filtered)))
                   height_filtered)"
    using n inlier_mask_select [of height_filtered "5 / 2" 8 xy_of] k
    by (simp add: outlier_removal_wires_def Let_def)
  then show "\<exists>clean. outlier_removal_wires height_filtered = Some clean \<and>
         clean = filter (\<lambda>p. mean_knn_distance (map xy_of height_filtered) 8 (xy_of p)
                    < outlier_threshold (5 / 2)
                        (map (mean_knn_distance (map xy_of height_filtered) 8)
                             (map xy_of height_filtered)))
                   height_filtered \<and>
         (\<forall>p. mean_knn_distance (map xy_of height_filtered) 8 (xy_of p)
                = outlier_threshold (5 / 2)
                    (map (mean_knn_distance (map xy_of height_filtered) 8)
                         (map xy_of height_filtered))
              \<longrightarrow> p \<notin> set clean)"
    by simp
qed

subsection \<open>Nineteen coincident points and one far away\<close>

lemma sort_zeros_far: "sort (replicate n (0::real) @ [5]) = replicate n 0 @ [5]"
  by (rule sorted_sort_id) (simp add: sorted_append sorted_replicate)

lemma sort_fives_zero: "sort (replicate n (5::real) @ [0]) = 0 # replicate n 5"
  by (rule properties_for_sort) (simp_all add: sorted_replicate)

lemma euclid_examples:
  "euclid2 (0, 0) (0, 0) = 0" "euclid2 (0, 0) (3, 4) = 5" "euclid2 (3, 4) (0, 0) = 5"
  "euclid2 (3, 4) (3, 4) = 0"
proof -
  have "sqrt 25 = 5" by (rule real_sqrt_unique) simp_all
  then show "euclid2 (0, 0) (0, 0) = 0" "euclid2 (0, 0) (3, 4) = 5" "euclid2 (3, 4) (0, 0) = 5"
    "euclid2 (3, 4) (3, 4) = 0"
    by (simp_all add: euclid2_def)
qed

lemma outlier_mean_distances:
  "mean_knn_distance cloud_outlier 10 (0, 0) = 0"
  "mean_knn_distance cloud_outlier 10 (3, 4) = 5"
  by (simp_all add: mean_knn_distance_def query_distances_def cloud_outlier_def euclid_examples
      sort_zeros_far sort_fives_zero np_mean_def sum_list_replicate)

lemma outlier_mean_list:
  "map (mean_knn_distance cloud_outlier 10) cloud_outlier = replicate 19 0 @ [5]"
proof -
  have "map (mean_knn_distance cloud_outlier 10) cloud_outlier
      = replicate 19 (mean_knn_distance cloud_outlier 10 (0, 0))
        @ [mean_knn_distance cloud_outlier 10 (3, 4)]"
    by (simp add: cloud_outlier_def)
  then show ?thesis by (simp add: outlier_mean_distances)
qed

lemma outlier_threshold_example:
  "outlier_threshold (6 / 5) (map (mean_knn_distance cloud_outlier 10) cloud_outlier)
     = 1 / 4 + 6 / 5 * sqrt (19 / 16)"
  by (simp add: outlier_mean_list outlier_threshold_def np_std_def np_mean_def sum_list_replicate
      power2_eq_square)

lemma outlier_threshold_bounds:
  "0 < outlier_threshold (6 / 5) (map (mean_knn_distance cloud_outlier 10) cloud_outlier)"
  "\<not> 5 < outlier_threshold (6 / 5) (map (mean_knn_distance cloud_outlier 10) cloud_outlier)"
proof -
  have "sqrt (19 / 16) \<le> sqrt 4" by (intro real_sqrt_le_mono) simp
  then have u: "sqrt (19 / 16) \<le> 2" by simp
  have l: "0 \<le> sqrt (19 / 16)" by simp
  from l show "0 < outlier_threshold (6 / 5) (map (mean_knn_distance cloud_outlier 10) cloud_outlier)"
    unfolding outlier_threshold_example by linarith
  from u show "\<not> 5 < outlier_threshold (6 / 5) (map (mean_knn_distance cloud_outlier 10) cloud_outlier)"
    unfolding outlier_threshold_example by linarith
qed

lemma wire_column_xy: "map xy_of wire_column = replicate 10 (0, 0)"
  by (simp add: wire_column_def xy_of_def comp_def map_replicate_const)

lemma wire_column_distance: "mean_knn_distance (replicate 10 (0, 0)) 8 (0, 0) = 0"
  by (simp add: mean_knn_distance_def query_distances_def euclid2_def sort_replicate np_mean_def
      sum_list_replicate)

lemma wire_column_threshold:
  "outlier_threshold (5 / 2)
     (map (mean_knn_distance (replicate 10 (0, 0)) 8) (replicate 10 (0, 0))) = 0"
  by (simp add: wire_column_distance outlier_threshold_def np_std_def np_mean_def
      sum_list_replicate)

text \<open>
  The theorem on nineteen coincident points and one point 5 m away (the far point goes),
  and on a vertical wire of ten points.
\<close>

theorem outlier_removal_strictly_below_witness:
  "20 \<le> length cloud_outlier \<and>
   outlier_removal_buildings cloud_outlier = Some (replicate 19 (0, 0)) \<and>
   10 \<le> length wire_column \<and>
   outlier_removal_wires wire_column = Some []"
proof -
  note t = outlier_removal_strictly_below [of cloud_outlier wire_column]
  have n: "20 \<le> length cloud_outlier" by (simp add: cloud_outlier_def)
  with t have "outlier_removal_buildings cloud_outlier =
      Some (filter (\<lambda>p. mean_knn_distance cloud_outlier 10 p
                    < outlier_threshold (6 / 5) (map (mean_knn_distance cloud_outlier 10) cloud_outlier))
                   cloud_outlier)"
    by blast
  also have "filter (\<lambda>p. mean_knn_distance cloud_outlier 10 p
                    < outlier_threshold (6 / 5) (map (mean_knn_distance cloud_outlier 10) cloud_outlier))
                   cloud_outlier = replicate 19 (0, 0)"
    using outlier_threshold_bounds
    by (simp add: cloud_outlier_def outlier_mean_distances [unfolded cloud_outlier_def])
  finally have b: "outlier_removal_buildings cloud_outlier = Some (replicate 19 (0, 0))" .
  have m: "10 \<le> length wire_column" by (simp add: wire_column_def)
  with t have "outlier_removal_wires wire_column =
      Some (filter (\<lambda>p. mean_knn_distance (map xy_of wire_column) 8 (xy_of p)
                    < outlier_threshold (5 / 2)
                        (map (mean_knn_distance (map xy_of wire_column) 8)
                             (map xy_of wire_column)))
                   wire_column)"
    by blast
  also have "filter (\<lambda>p. mean_knn_distance (map xy_of wire_column) 8 (xy_of p)
                    < outlier_threshold (5 / 2)
                        (map (mean_knn_distance (map xy_of wire_column) 8)
                             (map xy_of wire_column)))
                   wire_column = []"
    unfolding wire_column_xy wire_column_threshold
    by (simp add: wire_column_def xy_of_def wire_column_distance)
  finally have w: "outlier_removal_wires wire_column = Some []" .
  from n b m w show ?thesis by simp
qed

subsection \<open>A column of coincident points\<close>

lemma column_mean_distance: "mean_knn_distance cloud_column 10 (0, 0) = 0"
  by (simp add: mean_knn_distance_def query_distances_def cloud_column_def euclid2_def
      sort_replicate np_mean_def sum_list_replicate)

lemma column_mean_distances:
  "map (mean_knn_distance cloud_column 10) cloud_column = replicate 20 0"
proof -
  have "map (mean_knn_distance cloud_column 10) cloud_column
      = replicate 20 (mean_knn_distance cloud_column 10 (0, 0))"
    by (simp add: cloud_column_def)
  then show ?thesis by (simp add: column_mean_distance)
qed

lemma column_threshold:
  "outlier_threshold (6 / 5) (map (mean_knn_distance cloud_column 10) cloud_column) = 0"
  by (simp add: column_mean_distances outlier_threshold_def np_std_def np_mean_def sum_list_replicate)

lemma column_removed: "outlier_removal_buildings cloud_column = Some []"
proof -
  have "length cloud_column = 20" by (simp add: cloud_column_def)
  then have "outlier_removal_buildings cloud_column =
      Some (filter (\<lambda>p. mean_knn_distance cloud_column 10 p < 0) cloud_column)"
    using inlier_mask_select [of cloud_column "6 / 5" 10 "\<lambda>p. p"]
    by (simp add: outlier_removal_buildings_def column_threshold)
  also have "filter (\<lambda>p. mean_knn_distance cloud_column 10 p < 0) cloud_column = []"
    by (simp add: cloud_column_def column_mean_distance [unfolded cloud_column_def])
  finally show ?thesis .
qed

text \<open>
  Claim C4 as stated keeps a point whose mean distance equals the threshold. Twenty points
  with one projection have mean distance 0 and threshold 0; none exceeds the threshold
  and all are discarded.
\<close>

theorem outlier_removal_equality_counterexample:
  "20 \<le> length cloud_column \<and>
   (0, 0) \<in> set cloud_column \<and>
   \<not> mean_knn_distance cloud_column 10 (0, 0)
       > outlier_threshold (6 / 5) (map (mean_knn_distance cloud_column 10) cloud_column) \<and>
   mean_knn_distance cloud_column 10 (0, 0)
       = outlier_threshold (6 / 5) (map (mean_knn_distance cloud_column 10) cloud_column) \<and>
   outlier_removal_buildings cloud_column = Some []"
  by (simp add: column_threshold column_mean_distance column_removed)
     (simp add: cloud_column_def)
section \<open>Properties of the footprint builder\<close>

text \<open>
  The statements after Method 3, which build the axis-aligned box, are never reached.
\<close>

lemma method_bbox_never_falls_through: "method_bbox_with_cuts qh points_2d \<noteq> Fell_through"
  by (simp add: method_bbox_with_cuts_def)

lemma method_concave_qhull_fails:
  "qh (boundary_points alpha mx points_2d) = None \<Longrightarrow> method_concave qh alpha mx points_2d = None"
  by (simp add: method_concave_def create_concave_hull_def Let_def)

text \<open>
  Claim C2 says that a cluster of at least 4 points always gets a polygon. Whenever Qhull
  raises on the cluster and on its boundary points, Method 1 and Method 2 fall through,
  Method 3 returns the \<^verbatim>\<open>None\<close> of its helper, and the builder returns \<^verbatim>\<open>None\<close>, whatever
  the number of points.
\<close>

theorem footprint_none_when_qhull_fails:
  assumes "qh points_2d = None" and "qh (boundary_points alpha mx points_2d) = None"
  shows "create_footprint_building qh alpha mx points_2d = None"
  using assms
  by (simp add: create_footprint_building_def method_concave_qhull_fails method_convex_def
      method_bbox_with_cuts_def create_oriented_bbox_with_cuts_def)

text \<open>
  Four points on a line: the builder returns \<^verbatim>\<open>None\<close>, where Method 4 would have
  returned the closed box of five vertices.
\<close>

theorem footprint_none_when_qhull_fails_witness:
  "4 \<le> length cluster_line \<and>
   qhull_error cluster_line = None \<and>
   qhull_error (boundary_points 3 8 cluster_line) = None \<and>
   create_footprint_building qhull_error 3 8 cluster_line = None \<and>
   axis_aligned_box cluster_line = [(0, 0), (3, 0), (3, 0), (0, 0), (0, 0)]"
proof -
  have a: "qhull_error cluster_line = None"
    and b: "qhull_error (boundary_points 3 8 cluster_line) = None"
    by (simp_all add: qhull_error_def)
  from footprint_none_when_qhull_fails [OF a b]
  have "create_footprint_building qhull_error 3 8 cluster_line = None" .
  moreover have "axis_aligned_box cluster_line = [(0, 0), (3, 0), (3, 0), (0, 0), (0, 0)]"
    by (simp add: axis_aligned_box_def cluster_line_def py_min_def py_max_def)
  moreover have "4 \<le> length cluster_line" by (simp add: cluster_line_def)
  ultimately show ?thesis using a b by simp
qed

subsection \<open>What the builder returns when it returns a polygon\<close>

text \<open>The simplification keeps the first and the last vertex.\<close>

lemma dp_simplify_ends:
  "dp_simplify points epsilon = Some r \<Longrightarrow> points \<noteq> [] \<Longrightarrow>
   r \<noteq> [] \<and> hd r = hd points \<and> last r = last points"
proof (induction points epsilon arbitrary: r rule: dp_simplify.induct)
  case (1 points epsilon)
  let ?ix = "snd (farthest points)"
  show ?case
  proof (cases "length points \<le> 2")
    case True
    with "1.prems" show ?thesis by (simp add: dp_simplify.simps)
  next
    case long: False
    show ?thesis
    proof (cases "fst (farthest points) > epsilon")
      case False
      with long "1.prems" show ?thesis by (auto simp: dp_simplify.simps)
    next
      case far: True
      with long "1.prems"(1) have ix0: "?ix \<noteq> 0"
        by (auto simp: dp_simplify.simps [of points] split: if_splits)
      with farthest_index [of points] have ix: "1 \<le> ?ix" "?ix < length points - 1" by auto
      from long far ix0 "1.prems"(1) obtain left right where
        l: "dp_simplify (take (?ix + 1) points) epsilon = Some left" and
        r: "dp_simplify (drop ?ix points) epsilon = Some right" and
        res: "r = butlast left @ right"
        by (auto simp: dp_simplify.simps [of points] split: option.splits if_splits)
      have tne: "take (?ix + 1) points \<noteq> []" using "1.prems"(2) by simp
      have dne: "drop ?ix points \<noteq> []" using ix by simp
      from "1.IH"(1) [OF long far ix0 l tne]
      have L: "left \<noteq> []" "hd left = hd (take (?ix + 1) points)"
        "last left = last (take (?ix + 1) points)" by simp_all
      from "1.IH"(2) [OF long far ix0 l r dne]
      have R: "right \<noteq> []" "hd right = hd (drop ?ix points)"
        "last right = last (drop ?ix points)" by simp_all
      have hl: "hd left = hd points" using L(2) "1.prems"(2) by (simp add: hd_take)
      have "last (take (?ix + 1) points) = points ! ?ix"
        using ix by (simp add: take_Suc_conv_app_nth)
      then have ll: "last left = points ! ?ix" using L(3) by simp
      have hr: "hd right = points ! ?ix" using R(2) ix by (simp add: hd_drop_conv_nth)
      have lr: "last right = last points" using R(3) ix by simp
      have "hd r = hd points"
      proof (cases "butlast left = []")
        case True
        with L(1) have "left = [hd left]"
          by (cases left) (auto split: if_splits)
        then have "last left = hd left" by (metis last.simps)
        with ll hl hr True res show ?thesis by simp
      next
        case False
        then have "hd (butlast left) = hd left"
          by (cases left) (auto split: if_splits)
        with False hl res show ?thesis by simp
      qed
      with R(1) lr res show ?thesis by simp
    qed
  qed
qed

lemma simplify_polygon_closed:
  assumes "coords \<noteq> []" "hd coords = last coords"
  shows "simplify_polygon coords tolerance \<noteq> [] \<and>
         hd (simplify_polygon coords tolerance) = last (simplify_polygon coords tolerance)"
proof (cases "length coords < 4")
  case True
  with assms show ?thesis by (simp add: simplify_polygon_def)
next
  case False
  show ?thesis
  proof (cases "dp_simplify coords tolerance")
    case None
    with False assms show ?thesis by (simp add: simplify_polygon_def)
  next
    case (Some simplified)
    from dp_simplify_ends [OF Some assms(1)] have "simplified \<noteq> []" by simp
    with False Some show ?thesis
      by (cases simplified) (auto simp: simplify_polygon_def)
  qed
qed

lemma closed_by_append: "rows \<noteq> [] \<Longrightarrow> hd (rows @ [hd rows]) = last (rows @ [hd rows])"
  by simp

lemma create_concave_hull_closed:
  assumes "create_concave_hull qh alpha mx points = Some hull_coords" "hull_coords \<noteq> []"
  shows "hd hull_coords = last hull_coords"
  using assms closed_by_append
  by (auto simp: create_concave_hull_def Let_def split: if_splits option.splits)

lemma method_concave_closed:
  assumes "method_concave qh alpha mx points = Some poly"
  shows "4 \<le> length poly \<and> hd poly = last poly"
proof -
  from assms obtain hull_coords where
    h: "create_concave_hull qh alpha mx points = Some hull_coords" "4 \<le> length hull_coords"
    and p: "poly = simplify_polygon hull_coords (1 / 2)" "4 \<le> length poly"
    by (auto simp: method_concave_def Let_def split: option.splits if_splits)
  from h(2) have ne: "hull_coords \<noteq> []" by auto
  from simplify_polygon_closed [OF ne create_concave_hull_closed [OF h(1) ne]] p
  show ?thesis by simp
qed

lemma method_convex_closed:
  assumes "method_convex qh points = Some poly"
    and "\<And>h. qh points = Some h \<Longrightarrow>
           3 \<le> length (vertices h) \<and> distinct (map (\<lambda>i. points ! i) (vertices h))"
  shows "4 \<le> length poly \<and> hd poly = last poly"
proof -
  from assms(1) obtain h rows where h: "qh points = Some h"
    and rows: "take_rows points (vertices h) = Some rows"
    and poly: "poly = (if length rows > 0 \<and> hd rows \<noteq> last rows then rows @ [hd rows] else rows)"
    by (auto simp: method_convex_def split: option.splits)
  from rows have r: "rows = map (\<lambda>i. points ! i) (vertices h)"
    by (auto simp: take_rows_def split: if_splits)
  with assms(2) [OF h] have len: "3 \<le> length rows" and d: "distinct rows" by simp_all
  from len obtain a b c rest where abc: "rows = a # b # c # rest"
    by (cases rows; cases "tl rows"; cases "tl (tl rows)") auto
  with d have "hd rows \<noteq> last rows" by auto
  with poly len abc show ?thesis by auto
qed

text \<open>
  What does hold of a returned polygon. Let Qhull, where it succeeds on the cluster, yield at
  least 3 vertices that are distinct points (its contract for a hull in the plane). Then
  every polygon the builder returns is closed, first vertex equal to last, and has at
  least 4 vertices, and it comes from a cluster of at least 4 points.
\<close>

lemma footprint_closed_when_returned:
  assumes "create_footprint_building qh alpha mx points = Some poly"
    and "\<And>h. qh points = Some h \<Longrightarrow>
           3 \<le> length (vertices h) \<and> distinct (map (\<lambda>i. points ! i) (vertices h))"
  shows "4 \<le> length points \<and> 4 \<le> length poly \<and> hd poly = last poly"
proof -
  from assms(1) have n: "4 \<le> length points"
    by (auto simp: create_footprint_building_def split: if_splits)
  show ?thesis
  proof (cases "method_concave qh alpha mx points")
    case (Some p)
    with assms(1) n have "poly = p" by (simp add: create_footprint_building_def)
    with method_concave_closed [OF Some] n show ?thesis by simp
  next
    case None
    show ?thesis
    proof (cases "method_convex qh points")
      case (Some p)
      with None assms(1) n have "poly = p" by (simp add: create_footprint_building_def)
      with method_convex_closed [OF Some assms(2)] n show ?thesis by simp
    next
      case convex_none: None
      with None assms(1) n have c: "create_oriented_bbox_with_cuts qh points = Some poly"
        by (simp add: create_footprint_building_def method_bbox_with_cuts_def)
      then obtain h rows where h: "qh points = Some h"
        and rows: "take_rows points (vertices h) = Some rows"
        by (auto simp: create_oriented_bbox_with_cuts_def split: option.splits)
      with convex_none have False by (simp add: method_convex_def)
      then show ?thesis ..
    qed
  qed
qed

text \<open>The builder does return a polygon whenever Qhull succeeds on a cluster of 4 points or more.\<close>

lemma footprint_returned_when_qhull_succeeds:
  assumes "4 \<le> length points" "qh points = Some h"
    and "list_all (\<lambda>i. i < length points) (vertices h)"
  shows "\<exists>poly. create_footprint_building qh alpha mx points = Some poly"
  using assms
  by (auto simp: create_footprint_building_def method_convex_def take_rows_def
           split: option.splits)
section \<open>Properties of the point-loading stage\<close>

text \<open>
  Claim C9 says that the temporary files are deleted on every exit path. Once the
  pipeline description has been written, every run that returns 0 leaves it in place, and
  leaves the points file in place if PDAL wrote one.
\<close>

theorem temp_files_left_on_failure:
  assumes "can_write_pipeline env" and "fst (extract_run chunk_name env files) = 0"
  shows "pipeline_file chunk_name \<in> snd (extract_run chunk_name env files) \<and>
         (pdal_writes_points env \<longrightarrow>
            temp_points chunk_name \<in> snd (extract_run chunk_name env files))"
  using assms
  by (auto simp: extract_run_def Let_def
           split: pdal_result.splits option.splits stage_result.splits if_splits)

lemma too_few_points_run:
  "extract_run ''chunk_1'' env_too_few_points {} =
     (0, {''/tmp/building_test/chunk_1_all_points.txt'',
          ''/tmp/building_test/chunk_1_extract_pipeline.json''})"
  by (simp add: extract_run_def env_too_few_points_def temp_points_def pipeline_file_def Let_def)

text \<open>A run with too few points: both temporary files are still there.\<close>

theorem temp_files_left_on_failure_witness:
  "can_write_pipeline env_too_few_points \<and>
   pdal_writes_points env_too_few_points \<and>
   extract_run ''chunk_1'' env_too_few_points {} =
     (0, {''/tmp/building_test/chunk_1_all_points.txt'',
          ''/tmp/building_test/chunk_1_extract_pipeline.json''}) \<and>
   pipeline_file ''chunk_1'' \<in> snd (extract_run ''chunk_1'' env_too_few_points {}) \<and>
   temp_points ''chunk_1'' \<in> snd (extract_run ''chunk_1'' env_too_few_points {})"
proof -
  have c: "can_write_pipeline env_too_few_points" and w: "pdal_writes_points env_too_few_points"
    by (simp_all add: env_too_few_points_def)
  have z: "fst (extract_run ''chunk_1'' env_too_few_points {}) = 0"
    by (simp add: too_few_points_run)
  from temp_files_left_on_failure [OF c z] w too_few_points_run c show ?thesis by blast
qed

text \<open>Only a run that extracts buildings removes them.\<close>

lemma temp_files_removed_on_success:
  assumes "0 < fst (extract_run chunk_name env files)"
  shows "temp_points chunk_name \<notin> snd (extract_run chunk_name env files) \<and>
         pipeline_file chunk_name \<notin> snd (extract_run chunk_name env files)"
  using assms
  by (auto simp: extract_run_def Let_def
           split: pdal_result.splits option.splits stage_result.splits if_splits)
end
